theory Spec2Isabelle
  imports Complex_Main "HOL-Library.Sublist" "HOL-Library.Word"
begin

section \<open>Python primitives used by the pipeline\<close>

text \<open>
  A Python \<open>str\<close> is modelled as a \<open>string\<close>: a list of characters whose
  codes are the code points below 256. Positions are Python integers (\<open>int\<close>), because
  \<open>str.rfind\<close> answers \<open>-1\<close> and the chunker computes with that answer.
\<close>

definition py_len :: "'a list \<Rightarrow> int" where
  "py_len s = int (length s)"

text \<open>
  A slice bound \<open>i\<close> against a sequence of length \<open>n\<close>: a negative bound counts from
  the end, and every bound is clamped into \<open>0..n\<close>.
\<close>

definition py_index :: "int \<Rightarrow> int \<Rightarrow> nat" where
  "py_index n i = nat (if i < 0 then max 0 (i + n) else min i n)"

text \<open>\<open>s[start:end]\<close>\<close>

definition py_slice :: "'a list \<Rightarrow> int \<Rightarrow> int \<Rightarrow> 'a list" where
  "py_slice s start end' =
     (let lo = py_index (py_len s) start; hi = py_index (py_len s) end'
      in take (hi - lo) (drop lo s))"

text \<open>The highest position of \<open>c\<close> in a list, if there is one.\<close>

fun last_index :: "'a \<Rightarrow> 'a list \<Rightarrow> nat option" where
  "last_index c [] = None"
| "last_index c (x # xs) =
     (case last_index c xs of
        Some j \<Rightarrow> Some (Suc j)
      | None \<Rightarrow> (if x = c then Some 0 else None))"

text \<open>
  \<open>s.rfind(c, start, end)\<close> for a one-character needle: the highest index of \<open>c\<close>
  inside \<open>s[start:end]\<close>, as an index of \<open>s\<close>, or \<open>-1\<close>.
\<close>

definition py_rfind :: "char \<Rightarrow> string \<Rightarrow> int \<Rightarrow> int \<Rightarrow> int" where
  "py_rfind c s start end' =
     (let lo = py_index (py_len s) start; hi = py_index (py_len s) end'
      in case last_index c (take (hi - lo) (drop lo s)) of
           None \<Rightarrow> - 1
         | Some j \<Rightarrow> int (lo + j))"

text \<open>
  \<open>str.isspace\<close> on the code points below 256: tab to carriage return, the four
  separators \<open>0x1C..0x1F\<close>, the space, \<open>0x85\<close> and the no-break space.
\<close>

definition is_space :: "char \<Rightarrow> bool" where
  "is_space c =
     (let n = (of_char c :: nat)
      in (9 \<le> n \<and> n \<le> 13) \<or> (28 \<le> n \<and> n \<le> 32) \<or> n = 133 \<or> n = 160)"

text \<open>\<open>s.strip()\<close>\<close>

definition py_strip :: "string \<Rightarrow> string" where
  "py_strip s = rev (dropWhile is_space (rev (dropWhile is_space s)))"

section \<open>Chunker\<close>

text \<open>The two attributes set by \<open>RAGPipeline.__init__\<close>.\<close>

definition chunk_size :: int where
  "chunk_size = 1000"

definition chunk_overlap :: int where
  "chunk_overlap = 200"

text \<open>
  The end of the window that starts at \<open>start\<close>: the raw edge \<open>start + chunk_size\<close>,
  pulled back to just after the last full stop, or else to the last space, when the window
  ends inside the text and that position lies past the window's midpoint.
\<close>

definition window_end :: "string \<Rightarrow> int \<Rightarrow> int" where
  "window_end text start =
     (let end' = start + chunk_size
      in if end' < py_len text then
           (let sentence_end = py_rfind CHR ''.'' text start end'
            in if sentence_end > start + chunk_size div 2 then sentence_end + 1
               else (let word_end = py_rfind CHR '' '' text start end'
                     in if word_end > start + chunk_size div 2 then word_end else end'))
         else end')"

lemma window_end_progress: "start + 500 < window_end text start"
  by (simp add: window_end_def chunk_size_def Let_def)

text \<open>
  The \<open>while start < len(text)\<close> loop of \<open>chunk_text\<close>, with its \<open>break\<close>. The
  recursion is well founded because the distance from \<open>start\<close> to the end of the text
  shrinks in every iteration.
\<close>

function chunk_loop :: "string \<Rightarrow> int \<Rightarrow> string list \<Rightarrow> string list" where
  "chunk_loop text start chunks =
     (if start < py_len text then
        (let end' = window_end text start;
             chunk = py_strip (py_slice text start end');
             chunks' = (if chunk \<noteq> [] then chunks @ [chunk] else chunks);
             start' = end' - chunk_overlap
         in if start' \<ge> py_len text then chunks' else chunk_loop text start' chunks')
      else chunks)"
  by pat_completeness auto
termination
proof (relation "measure (\<lambda>(text, start, chunks). nat (py_len text - start))")
  show "wf (measure (\<lambda>(text, start, chunks). nat (py_len text - start)))"
    by simp
next
  fix t :: string and start :: int and chunks :: "string list"
    and x :: int and xa :: string and xb :: "string list" and xc :: int
  assume "start < py_len t" "x = window_end t start" "xc = x - chunk_overlap"
  moreover have "start + 500 < window_end t start"
    by (rule window_end_progress)
  ultimately show "((t, xc, xb), t, start, chunks)
      \<in> measure (\<lambda>(text, start, chunks). nat (py_len text - start))"
    by (simp add: chunk_overlap_def)
qed

declare chunk_loop.simps [simp del]

definition chunk_text :: "string \<Rightarrow> string list" where
  "chunk_text text =
     (if py_len text \<le> chunk_size then [text] else chunk_loop text 0 [])"

text \<open>
  The windows \<open>(start, end)\<close> that the loop of \<open>chunk_text\<close> visits from \<open>start\<close>
  on, in order: the same loop, recording the slice bounds instead of the slices.
\<close>

function chunk_windows :: "string \<Rightarrow> int \<Rightarrow> (int \<times> int) list" where
  "chunk_windows text start =
     (if start < py_len text then
        (let end' = window_end text start;
             start' = end' - chunk_overlap
         in (start, end') # (if start' \<ge> py_len text then [] else chunk_windows text start'))
      else [])"
  by pat_completeness auto
termination
proof (relation "measure (\<lambda>(text, start). nat (py_len text - start))")
  show "wf (measure (\<lambda>(text, start). nat (py_len text - start)))"
    by simp
next
  fix t :: string and start :: int and x :: int and xa :: int
  assume "start < py_len t" "x = window_end t start" "xa = x - chunk_overlap"
  moreover have "start + 500 < window_end t start"
    by (rule window_end_progress)
  ultimately show "((t, xa), t, start)
      \<in> measure (\<lambda>(text, start). nat (py_len text - start))"
    by (simp add: chunk_overlap_def)
qed

declare chunk_windows.simps [simp del]

section \<open>Exceptions\<close>

text \<open>
  A Python exception is a value. \<open>ValueError\<close> is what the pipeline's own code and
  \<open>int\<close> raise, \<open>IndexError\<close> what indexing a list out of range raises,
  \<open>UnicodeEncodeError\<close> what \<open>str.encode\<close> raises; \<open>ServiceError\<close> stands
  for whatever an external service (the generation and embedding API, the vector store)
  raises. \<open>str\<close> is \<open>str(e)\<close>.
\<close>

datatype exn =
  ValueError string | IndexError string | UnicodeEncodeError string | ServiceError string

fun str :: "exn \<Rightarrow> string" where
  "str (ValueError m) = m"
| "str (IndexError m) = m"
| "str (UnicodeEncodeError m) = m"
| "str (ServiceError m) = m"

text \<open>\<open>c.lower()\<close> on the code points below 256, and \<open>s.lower()\<close>.\<close>

definition char_lower :: "char \<Rightarrow> char" where
  "char_lower c =
     (let n = (of_char c :: nat)
      in if (65 \<le> n \<and> n \<le> 90) \<or> (192 \<le> n \<and> n \<le> 222 \<and> n \<noteq> 215)
         then char_of (n + 32) else c)"

definition py_lower :: "string \<Rightarrow> string" where
  "py_lower s = map char_lower s"

text \<open>\<open>sub in s\<close> for strings is \<open>sublist sub s\<close>: a contiguous occurrence.\<close>

section \<open>Hash-based fallback embedding\<close>

text \<open>
  The text handed to the hash is given by its code points, so that every Python \<open>str\<close>
  can be written down, also one that holds a surrogate (\<open>0xD800\<close> to \<open>0xDFFF\<close>);
  a \<open>str\<close> holds no code point above \<open>0x10FFFF\<close>. \<open>code_points\<close> reads a
  string of the rest of the model as such a text.
\<close>

definition code_points :: "string \<Rightarrow> nat list" where
  "code_points s = map of_char s"

definition is_surrogate :: "nat \<Rightarrow> bool" where
  "is_surrogate c \<longleftrightarrow> 55296 \<le> c \<and> c \<le> 57343"

text \<open>The UTF-8 bytes of one code point.\<close>

definition utf8_char :: "nat \<Rightarrow> 8 word list" where
  "utf8_char c =
     (if c < 128 then [of_nat c]
      else if c < 2048 then [of_nat (192 + c div 64), of_nat (128 + c mod 64)]
      else if c < 65536 then
        [of_nat (224 + c div 4096), of_nat (128 + c div 64 mod 64), of_nat (128 + c mod 64)]
      else
        [of_nat (240 + c div 262144), of_nat (128 + c div 4096 mod 64),
         of_nat (128 + c div 64 mod 64), of_nat (128 + c mod 64)])"

text \<open>
  \<open>text.encode()\<close>: the UTF-8 bytes of the text; with the default error handling a
  surrogate anywhere in the text raises \<open>UnicodeEncodeError\<close>.
\<close>

definition utf8_encode :: "nat list \<Rightarrow> exn + 8 word list" where
  "utf8_encode text =
     (if list_ex is_surrogate text then Inl (UnicodeEncodeError ''surrogates not allowed'')
      else Inr (concat (map utf8_char text)))"

text \<open>
  \<open>hashlib.md5\<close> is a library function and stays a parameter \<open>md5\<close> of the model:
  it maps the encoded bytes to their 128-bit digest. \<open>hexdigest\<close> writes the sixteen
  digest bytes, first byte first, as two lower-case hexadecimal digits each.
\<close>

definition hex_digit :: "nat \<Rightarrow> char" where
  "hex_digit n = ''0123456789abcdef'' ! (n mod 16)"

definition hex_byte :: "8 word \<Rightarrow> string" where
  "hex_byte b = [hex_digit (unat b div 16), hex_digit (unat b mod 16)]"

definition digest_bytes :: "128 word \<Rightarrow> 8 word list" where
  "digest_bytes d = map (\<lambda>i. ucast (drop_bit (8 * (15 - i)) d)) [0..<16]"

definition hexdigest :: "128 word \<Rightarrow> string" where
  "hexdigest d = concat (map hex_byte (digest_bytes d))"

text \<open>
  \<open>int(s, 16)\<close> on the slices the embedding loop takes from a digest: a non-empty run of
  hexadecimal digits has its value. Python's \<open>int\<close> also accepts a sign, surrounding
  whitespace and underscores between digits; a hexadecimal digest contains none of these, and
  the model answers every other string with the \<open>ValueError\<close> of a malformed literal.
\<close>

definition hex_value :: "char \<Rightarrow> nat option" where
  "hex_value c =
     (let n = (of_char c :: nat)
      in if 48 \<le> n \<and> n \<le> 57 then Some (n - 48)
         else if 97 \<le> n \<and> n \<le> 102 then Some (n - 87)
         else if 65 \<le> n \<and> n \<le> 70 then Some (n - 55)
         else None)"

fun hex_digits_value :: "nat \<Rightarrow> string \<Rightarrow> nat option" where
  "hex_digits_value acc [] = Some acc"
| "hex_digits_value acc (c # cs) =
     (case hex_value c of
        None \<Rightarrow> None
      | Some v \<Rightarrow> hex_digits_value (16 * acc + v) cs)"

definition py_int16 :: "string \<Rightarrow> exn + int" where
  "py_int16 s =
     (if s = [] then Inl (ValueError ''invalid literal for int() with base 16'')
      else case hex_digits_value 0 s of
             None \<Rightarrow> Inl (ValueError ''invalid literal for int() with base 16'')
           | Some n \<Rightarrow> Inr (int n))"

text \<open>
  The loop \<open>for i in range(0, min(len(text_hash), 384), 2)\<close>. A Python float is
  modelled by the real number it stands for: the component is the exact quotient of a byte
  value by 255.
\<close>

function hash_pairs :: "string \<Rightarrow> nat \<Rightarrow> real list \<Rightarrow> exn + real list" where
  "hash_pairs text_hash i embedding =
     (if i < min (length text_hash) 384 then
        (case py_int16 (py_slice text_hash (int i) (int i + 2)) of
           Inl e \<Rightarrow> Inl e
         | Inr v \<Rightarrow> hash_pairs text_hash (i + 2) (embedding @ [real_of_int v / 255]))
      else Inr embedding)"
  by pat_completeness auto
termination
  by (relation "measure (\<lambda>(text_hash, i, embedding). 384 - i)") auto

declare hash_pairs.simps [simp del]

text \<open>The loop \<open>while len(embedding) < 384: embedding.append(0.0)\<close>.\<close>

function pad_loop :: "real list \<Rightarrow> real list" where
  "pad_loop embedding =
     (if length embedding < 384 then pad_loop (embedding @ [0]) else embedding)"
  by pat_completeness auto
termination
  by (relation "measure (\<lambda>embedding. 384 - length embedding)") auto

declare pad_loop.simps [simp del]

text \<open>
  The body of the loop over \<open>texts\<close>: the embedding of one text, or the exception that
  \<open>text.encode()\<close> or \<open>int\<close> raises.
\<close>

definition hash_embedding ::
  "(8 word list \<Rightarrow> 128 word) \<Rightarrow> nat list \<Rightarrow> exn + real list" where
  "hash_embedding md5 text =
     (case utf8_encode text of
        Inl e \<Rightarrow> Inl e
      | Inr encoded \<Rightarrow>
          (let text_hash = hexdigest (md5 encoded)
           in case hash_pairs text_hash 0 [] of
                Inl e \<Rightarrow> Inl e
              | Inr embedding \<Rightarrow> Inr (take 384 (pad_loop embedding))))"

text \<open>\<open>_generate_hash_embeddings\<close>\<close>

fun generate_hash_embeddings ::
  "(8 word list \<Rightarrow> 128 word) \<Rightarrow> nat list list \<Rightarrow> exn + real list list" where
  "generate_hash_embeddings md5 [] = Inr []"
| "generate_hash_embeddings md5 (text # texts) =
     (case hash_embedding md5 text of
        Inl e \<Rightarrow> Inl e
      | Inr embedding \<Rightarrow>
          (case generate_hash_embeddings md5 texts of
             Inl e \<Rightarrow> Inl e
           | Inr embeddings \<Rightarrow> Inr (embedding # embeddings)))"

section \<open>External services\<close>

text \<open>
  Everything the pipeline reaches outside its own code is a field of \<open>services\<close>; a
  call that can fail answers with the exception raised or with its value:
  \<^item> \<open>md5_digest\<close>: \<open>hashlib.md5(encoded).digest()\<close>;
  \<^item> \<open>embedding_model\<close>: which tier \<open>__init__\<close> selected;
  \<^item> \<open>encode\<close>: the local sentence-transformers model on a batch;
  \<^item> \<open>embed_content\<close>: the remote embedding call on one text;
  \<^item> \<open>vector_distance\<close>: the distance the vector store ranks by;
  \<^item> \<open>query_fault\<close>: the exception a query of the vector store fails with, if it fails;
  \<^item> \<open>generate_content\<close>: \<open>gemini_model.generate_content(prompt).text\<close>, where the
    first argument counts the generation calls made before this one, so that the service
    may answer the same prompt differently from one attempt to the next.
\<close>

datatype embedding_model = NoModel | SentenceTransformer | GeminiEmbedding

record services =
  md5_digest :: "8 word list \<Rightarrow> 128 word"
  embedding_model :: embedding_model
  encode :: "string list \<Rightarrow> exn + real list list"
  embed_content :: "string \<Rightarrow> exn + real list"
  vector_distance :: "real list \<Rightarrow> real list \<Rightarrow> real"
  query_fault :: "exn option"
  generate_content :: "nat \<Rightarrow> string \<Rightarrow> exn + string"

section \<open>Embedding provider\<close>

text \<open>The marker test \<open>"quota" in str(e).lower() or "429" in str(e)\<close>.\<close>

definition is_quota_error :: "exn \<Rightarrow> bool" where
  "is_quota_error e \<longleftrightarrow> sublist ''quota'' (py_lower (str e)) \<or> sublist ''429'' (str e)"

text \<open>
  The loop of the remote branch of \<open>generate_embeddings\<close>: a quota failure of one text
  puts the hash embedding of that text in its place, any other failure is raised again.
\<close>

fun embed_each :: "services \<Rightarrow> string list \<Rightarrow> exn + real list list" where
  "embed_each sv [] = Inr []"
| "embed_each sv (text # texts) =
     (case (case embed_content sv text of
              Inr embedding \<Rightarrow> Inr embedding
            | Inl e \<Rightarrow>
                (if is_quota_error e then
                   (case generate_hash_embeddings (md5_digest sv) [code_points text] of
                      Inl e' \<Rightarrow> Inl e'
                    | Inr [] \<Rightarrow> Inl (IndexError ''list index out of range'')
                    | Inr (embedding # _) \<Rightarrow> Inr embedding)
                 else Inl e)) of
        Inl e \<Rightarrow> Inl e
      | Inr embedding \<Rightarrow>
          (case embed_each sv texts of
             Inl e \<Rightarrow> Inl e
           | Inr embeddings \<Rightarrow> Inr (embedding # embeddings)))"

definition generate_embeddings :: "services \<Rightarrow> string list \<Rightarrow> exn + real list list" where
  "generate_embeddings sv texts =
     (case (case embedding_model sv of
              NoModel \<Rightarrow> generate_hash_embeddings (md5_digest sv) (map code_points texts)
            | SentenceTransformer \<Rightarrow> encode sv texts
            | GeminiEmbedding \<Rightarrow> embed_each sv texts) of
        Inr embeddings \<Rightarrow> Inr embeddings
      | Inl e \<Rightarrow> generate_hash_embeddings (md5_digest sv) (map code_points texts))"

section \<open>Vector index\<close>

text \<open>The metadata dictionary \<open>add_document\<close> stores with each chunk.\<close>

record chunk_metadata =
  content_id :: string
  source :: string
  content_type :: string
  chunk_index :: nat
  total_chunks :: nat
  chunk_length :: nat

text \<open>
  One stored chunk: its id, vector, text and metadata. A collection holds its chunks in
  insertion order; the store maps a collection name to the collection.
\<close>

record entry =
  entry_id :: string
  entry_embedding :: "real list"
  entry_document :: string
  entry_metadata :: chunk_metadata

type_synonym collection = "entry list"

type_synonym store = "string \<rightharpoonup> collection"

text \<open>The dictionary \<open>search_relevant_chunks\<close> builds for each hit.\<close>

record chunk_data =
  content :: string
  metadata :: chunk_metadata
  distance :: real

text \<open>\<open>chroma_client.get_collection(name)\<close> raises when there is no such collection.\<close>

definition get_collection :: "store \<Rightarrow> string \<Rightarrow> exn + collection" where
  "get_collection st name =
     (case st name of
        None \<Rightarrow> Inl (ServiceError (''Collection '' @ name @ '' does not exist.''))
      | Some collection \<Rightarrow> Inr collection)"

definition collection_count :: "collection \<Rightarrow> int" where
  "collection_count collection = py_len collection"

text \<open>
  Modelled from the spec: the vector store's \<open>query\<close> is library code. For each query
  vector it returns at most \<open>n_results\<close> nearest chunks by vector distance, smaller first,
  ties in insertion order (the sort is stable), each with its text, metadata and distance.
\<close>

definition nearest :: "services \<Rightarrow> collection \<Rightarrow> real list \<Rightarrow> nat \<Rightarrow> chunk_data list" where
  "nearest sv collection q n_results =
     map (\<lambda>e. \<lparr>content = entry_document e, metadata = entry_metadata e,
               distance = vector_distance sv q (entry_embedding e)\<rparr>)
       (take n_results (sort_key (\<lambda>e. vector_distance sv q (entry_embedding e)) collection))"

definition collection_query ::
  "services \<Rightarrow> collection \<Rightarrow> real list list \<Rightarrow> nat \<Rightarrow> exn + chunk_data list list" where
  "collection_query sv collection query_embeddings n_results =
     (case query_fault sv of
        Some e \<Rightarrow> Inl e
      | None \<Rightarrow> Inr (map (\<lambda>q. nearest sv collection q n_results) query_embeddings))"

text \<open>
  Modelled from the spec: \<open>collection.get(where={"content_id": content_id})['ids']\<close>, the
  ids of the chunks whose metadata carries that \<open>content_id\<close>, and
  \<open>collection.delete(ids=ids)\<close>, which removes the chunks with those ids.
\<close>

definition collection_get_ids :: "collection \<Rightarrow> string \<Rightarrow> string list" where
  "collection_get_ids collection cid =
     map entry_id (filter (\<lambda>e. content_id (entry_metadata e) = cid) collection)"

definition collection_delete :: "collection \<Rightarrow> string list \<Rightarrow> collection" where
  "collection_delete collection ids = filter (\<lambda>e. entry_id e \<notin> set ids) collection"

section \<open>Pipeline operations on the store\<close>

definition collection_name :: "string \<Rightarrow> string" where
  "collection_name user_id = ''user_'' @ user_id"

text \<open>\<open>get_user_collection\<close> logs and raises the store's exception again.\<close>

definition get_user_collection :: "store \<Rightarrow> string \<Rightarrow> exn + collection" where
  "get_user_collection st user_id =
     (case get_collection st (collection_name user_id) of
        Inl e \<Rightarrow> Inl e
      | Inr collection \<Rightarrow> Inr collection)"

text \<open>
  \<open>delete_document\<close>: the result is the exception raised, or the store after the call.
\<close>

definition delete_document :: "store \<Rightarrow> string \<Rightarrow> string \<Rightarrow> exn + store" where
  "delete_document st user_id cid =
     (case get_user_collection st user_id of
        Inl e \<Rightarrow> Inl e
      | Inr collection \<Rightarrow>
          (let ids = collection_get_ids collection cid
           in if ids \<noteq> []
              then Inr (st(collection_name user_id \<mapsto> collection_delete collection ids))
              else Inr st))"

text \<open>
  \<open>search_relevant_chunks\<close>: the embedding of the query, the query of the collection and
  the formatting of the first result list; any exception on the way is logged and answered
  by the empty list. \<open>default_top_k\<close> is the default of the parameter \<open>top_k\<close>.
\<close>

definition default_top_k :: nat where
  "default_top_k = 5"

definition search_relevant_chunks ::
  "services \<Rightarrow> store \<Rightarrow> string \<Rightarrow> string \<Rightarrow> nat \<Rightarrow> exn + chunk_data list" where
  "search_relevant_chunks sv st user_id query top_k =
     (case (case get_user_collection st user_id of
              Inl e \<Rightarrow> Inl e
            | Inr collection \<Rightarrow>
                (case generate_embeddings sv [query] of
                   Inl e \<Rightarrow> Inl e
                 | Inr query_embeddings \<Rightarrow>
                     (case collection_query sv collection query_embeddings top_k of
                        Inl e \<Rightarrow> Inl e
                      | Inr results \<Rightarrow>
                          Inr (case results of [] \<Rightarrow> [] | hits # _ \<Rightarrow> hits)))) of
        Inl e \<Rightarrow> Inr []
      | Inr relevant_chunks \<Rightarrow> Inr relevant_chunks)"

section \<open>Generation and the response orchestrator\<close>

text \<open>
  A computation that may call the generation service takes the number of generation calls
  made so far and returns its outcome (the exception raised, or the value returned)
  together with the number of calls made by then.
\<close>

type_synonym 'a io = "nat \<Rightarrow> (exn + 'a) \<times> nat"

definition io_return :: "'a \<Rightarrow> 'a io" where
  "io_return x = (\<lambda>n. (Inr x, n))"

definition io_lift :: "exn + 'a \<Rightarrow> 'a io" where
  "io_lift r = (\<lambda>n. (r, n))"

definition io_bind :: "'a io \<Rightarrow> ('a \<Rightarrow> 'b io) \<Rightarrow> 'b io" where
  "io_bind m f = (\<lambda>n. case m n of (Inl e, n') \<Rightarrow> (Inl e, n') | (Inr x, n') \<Rightarrow> f x n')"

text \<open>\<open>try: m except Exception as e: h\<close>\<close>

definition io_try :: "'a io \<Rightarrow> (exn \<Rightarrow> 'a io) \<Rightarrow> 'a io" where
  "io_try m h = (\<lambda>n. case m n of (Inl e, n') \<Rightarrow> h e n' | (Inr x, n') \<Rightarrow> (Inr x, n'))"

text \<open>\<open>self.gemini_model.generate_content(prompt).text\<close>: one attempt.\<close>

definition call_generate :: "services \<Rightarrow> string \<Rightarrow> string io" where
  "call_generate sv prompt = (\<lambda>n. (generate_content sv n prompt, Suc n))"

text \<open>The messages of the \<open>except\<close> branch of \<open>generate_general_response\<close>.\<close>

definition msg_api_key :: string where
  "msg_api_key =
     ''I'm sorry, but there's an issue with the AI service configuration. Please check the API key.''"

definition msg_quota :: string where
  "msg_quota =
     ''I'm having trouble processing your request right now. Please try again shortly.''"

definition msg_404 :: string where
  "msg_404 =
     ''I'm experiencing a temporary service issue. Please try again in a few moments.''"

definition msg_timeout :: string where
  "msg_timeout = ''The request timed out. Please try again with a shorter query.''"

definition msg_other :: "string \<Rightarrow> string" where
  "msg_other s = ''I encountered an error: '' @ take 100 s @ ''... Please try again.''"

text \<open>The \<open>if\<close>/\<open>elif\<close> chain over \<open>str(e)\<close>, in the source's order.\<close>

definition general_error_message :: "string \<Rightarrow> string" where
  "general_error_message s =
     (if sublist ''API key not valid'' s then msg_api_key
      else if sublist ''quota'' (py_lower s) \<or> sublist ''429'' s then msg_quota
      else if sublist ''404'' s then msg_404
      else if sublist ''timeout'' (py_lower s) then msg_timeout
      else msg_other s)"

definition generate_general_response :: "services \<Rightarrow> string \<Rightarrow> string io" where
  "generate_general_response sv query =
     io_try (call_generate sv query)
       (\<lambda>e. io_return (general_error_message (str e)))"

text \<open>
  The context loop of \<open>generate_rag_response\<close>, with its \<open>break\<close>; a source entry
  carries the chunk's source, its content type and \<open>1 - distance\<close>.
\<close>

record source_ref =
  ref_source :: string
  ref_content_type :: string
  relevance_score :: real

definition max_context_length :: int where
  "max_context_length = 2000"

definition source_of :: "chunk_data \<Rightarrow> source_ref" where
  "source_of chunk =
     \<lparr>ref_source = source (metadata chunk),
      ref_content_type = content_type (metadata chunk),
      relevance_score = 1 - distance chunk\<rparr>"

fun context_loop ::
  "chunk_data list \<Rightarrow> string list \<Rightarrow> source_ref list \<Rightarrow> int
     \<Rightarrow> string list \<times> source_ref list" where
  "context_loop [] context_parts sources current_length = (context_parts, sources)"
| "context_loop (chunk # rest) context_parts sources current_length =
     (if current_length + py_len (content chunk) > max_context_length
      then (context_parts, sources)
      else context_loop rest (context_parts @ [content chunk]) (sources @ [source_of chunk])
             (current_length + py_len (content chunk)))"

text \<open>\<open>sep.join(parts)\<close>\<close>

fun py_join :: "string \<Rightarrow> string list \<Rightarrow> string" where
  "py_join sep [] = []"
| "py_join sep [p] = p"
| "py_join sep (p # q # ps) = p @ sep @ py_join sep (q # ps)"

definition newline :: string where
  "newline = [CHR 0x0A]"

text \<open>The prompt template of the grounded generation.\<close>

definition rag_prompt :: "string \<Rightarrow> string \<Rightarrow> string" where
  "rag_prompt context query =
     ''Based on the following context from the user's documents, answer the query. ''
     @ ''If the context doesn't contain enough information to answer the query, ''
     @ ''say so and provide a general response.'' @ newline @ newline
     @ ''Context:'' @ newline @ context @ newline @ newline
     @ ''Query: '' @ query @ newline @ newline
     @ ''Please provide a helpful response based on the context above. ''
     @ ''If you reference specific information, mention which source it came from.''"

definition quota_note :: string where
  "quota_note =
     newline @ newline
     @ ''Note: Document-based responses are temporarily unavailable due to API limits.''"

text \<open>\<open>return self.generate_general_response(query), []\<close>\<close>

definition general_fallback :: "services \<Rightarrow> string \<Rightarrow> (string \<times> source_ref list) io" where
  "general_fallback sv query =
     io_bind (generate_general_response sv query) (\<lambda>response. io_return (response, []))"

text \<open>
  The body of the outer \<open>try\<close> of \<open>generate_rag_response\<close>. The inner \<open>try\<close> either
  returns from the function (\<open>Some\<close>) or falls through to the retrieval (\<open>None\<close>).
\<close>

definition rag_body ::
  "services \<Rightarrow> store \<Rightarrow> string \<Rightarrow> string \<Rightarrow> (string \<times> source_ref list) io" where
  "rag_body sv st query user_id =
     io_bind
       (io_try
          (io_bind (io_lift (get_user_collection st user_id)) (\<lambda>collection.
             if collection_count collection = 0
             then io_bind (general_fallback sv query) (\<lambda>r. io_return (Some r))
             else io_return None))
          (\<lambda>e. io_bind (general_fallback sv query) (\<lambda>r. io_return (Some r))))
       (\<lambda>early.
          case early of
            Some r \<Rightarrow> io_return r
          | None \<Rightarrow>
              io_bind (io_lift (search_relevant_chunks sv st user_id query default_top_k))
                (\<lambda>relevant_chunks.
                   if relevant_chunks = [] then general_fallback sv query
                   else
                     (case context_loop relevant_chunks [] [] 0 of
                        (context_parts, sources) \<Rightarrow>
                          if context_parts = [] then general_fallback sv query
                          else
                            io_bind
                              (call_generate sv
                                 (rag_prompt (py_join (newline @ newline) context_parts) query))
                              (\<lambda>response. io_return (response, sources)))))"

definition generate_rag_response ::
  "services \<Rightarrow> store \<Rightarrow> string \<Rightarrow> string \<Rightarrow> (string \<times> source_ref list) io" where
  "generate_rag_response sv st query user_id =
     io_try (rag_body sv st query user_id)
       (\<lambda>e. io_bind (generate_general_response sv query) (\<lambda>general_response.
               io_return
                 (if sublist ''quota'' (py_lower (str e))
                  then general_response @ quota_note else general_response,
                  [])))"

section \<open>Test doubles for the end-to-end scenarios\<close>

text \<open>
  Services whose embedding call answers every text with the one-component vector \<open>[0]\<close>,
  whose distance is the squared Euclidean distance, whose vector store does not fail, and
  whose generation behaves as given.
\<close>

definition stub_services :: "(nat \<Rightarrow> string \<Rightarrow> exn + string) \<Rightarrow> services" where
  "stub_services generate =
     \<lparr>md5_digest = (\<lambda>encoded. 0),
      embedding_model = GeminiEmbedding,
      encode = (\<lambda>texts. Inr (map (\<lambda>text. [0]) texts)),
      embed_content = (\<lambda>text. Inr [0]),
      vector_distance = (\<lambda>a b. sum_list (map (\<lambda>(x, y). (x - y) * (x - y)) (zip a b))),
      query_fault = None,
      generate_content = generate\<rparr>"

text \<open>A generation service that always answers.\<close>

fun always_answer :: "nat \<Rightarrow> string \<Rightarrow> exn + string" where
  "always_answer n prompt = Inr ''Hello''"

text \<open>Scenario C: two quota failures, then an answer on the third attempt.\<close>

fun quota_twice :: "nat \<Rightarrow> string \<Rightarrow> exn + string" where
  "quota_twice n prompt =
     (if n < 2 then Inl (ServiceError ''429 quota exceeded'') else Inr ''answer'')"

text \<open>A generation service that always fails with an error of no known class.\<close>

fun always_boom :: "nat \<Rightarrow> string \<Rightarrow> exn + string" where
  "always_boom n prompt = Inl (ServiceError ''boom'')"

text \<open>
  A stored chunk as \<open>add_document\<close> stores it (document \<open>cid\<close>, chunk number \<open>i\<close>)
  with the vector \<open>[x]\<close>, and the hit a query returns for it under \<open>stub_services\<close>,
  where the query vector is \<open>[0]\<close>.
\<close>

definition stub_entry :: "string \<Rightarrow> string \<Rightarrow> real \<Rightarrow> string \<Rightarrow> entry" where
  "stub_entry cid i x document =
     \<lparr>entry_id = cid @ ''_chunk_'' @ i,
      entry_embedding = [x],
      entry_document = document,
      entry_metadata =
        \<lparr>content_id = cid, source = ''notes.txt'', content_type = ''text'',
         chunk_index = 0, total_chunks = 1, chunk_length = length document\<rparr>\<rparr>"

definition stub_hit :: "string \<Rightarrow> string \<Rightarrow> real \<Rightarrow> string \<Rightarrow> chunk_data" where
  "stub_hit cid i x document =
     \<lparr>content = document, metadata = entry_metadata (stub_entry cid i x document),
      distance = x * x\<rparr>"

section \<open>Properties of the chunker\<close>

lemma last_index_less: "last_index c xs = Some j \<Longrightarrow> j < length xs"
  by (induction xs arbitrary: j) (auto split: option.splits if_splits)

lemma py_rfind_less: "0 \<le> e \<Longrightarrow> py_rfind c s start e < e"
proof -
  assume e: "0 \<le> e"
  define lo where "lo = py_index (py_len s) start"
  define hi where "hi = py_index (py_len s) e"
  have hi: "int hi \<le> e" using e by (simp add: hi_def py_index_def)
  show ?thesis
  proof (cases "last_index c (take (hi - lo) (drop lo s))")
    case None
    then show ?thesis using e by (simp add: py_rfind_def Let_def lo_def hi_def)
  next
    case (Some j)
    then have "j < hi - lo" using last_index_less [OF Some] by simp
    then have "int (lo + j) < e" using hi by linarith
    then show ?thesis using Some by (simp add: py_rfind_def Let_def lo_def hi_def)
  qed
qed

lemma window_end_upper: "0 \<le> start \<Longrightarrow> window_end tx start \<le> start + chunk_size"
  using py_rfind_less [of "start + 1000" "CHR ''.''" tx start]
        py_rfind_less [of "start + 1000" "CHR '' ''" tx start]
  by (simp add: window_end_def chunk_size_def Let_def)

lemma window_end_inside: "start + chunk_size < py_len tx \<Longrightarrow> 0 \<le> start \<Longrightarrow> window_end tx start < py_len tx"
  using window_end_upper [of start tx] by simp

lemma chunk_loop_windows:
  "chunk_loop tx start chunks =
     chunks @ filter (\<lambda>c. c \<noteq> []) (map (\<lambda>(s, e). py_strip (py_slice tx s e)) (chunk_windows tx start))"
proof (induction tx start chunks rule: chunk_loop.induct)
  case (1 tx start chunks)
  show ?case
  proof (cases "start < py_len tx")
    case False
    then show ?thesis by (simp add: chunk_loop.simps [of tx start] chunk_windows.simps [of tx start])
  next
    case True
    show ?thesis
    proof (cases "window_end tx start - chunk_overlap \<ge> py_len tx")
      case True
      with \<open>start < py_len tx\<close> show ?thesis
        by (simp add: chunk_loop.simps [of tx start] chunk_windows.simps [of tx start] Let_def)
    next
      case False
      with \<open>start < py_len tx\<close> 1 show ?thesis
        by (simp add: chunk_loop.simps [of tx start] chunk_windows.simps [of tx start] Let_def)
    qed
  qed
qed

lemma windows_bounds:
  "0 \<le> start \<Longrightarrow> (s, e) \<in> set (chunk_windows tx start) \<Longrightarrow>
     start \<le> s \<and> s < py_len tx \<and> s + 500 < e \<and> e \<le> s + chunk_size"
proof (induction tx start rule: chunk_windows.induct)
  case (1 tx start)
  show ?case
  proof (cases "start < py_len tx")
    case False
    with 1(3) show ?thesis by (simp add: chunk_windows.simps [of tx start])
  next
    case True
    note lt = this
    show ?thesis
    proof (cases "(s, e) = (start, window_end tx start)")
      case True
      then show ?thesis using lt window_end_progress [of start tx] window_end_upper [OF 1(2), of tx]
        by simp
    next
      case False
      with 1(3) lt have nb: "\<not> window_end tx start - chunk_overlap \<ge> py_len tx"
        and mem: "(s, e) \<in> set (chunk_windows tx (window_end tx start - chunk_overlap))"
        by (auto simp: chunk_windows.simps [of tx start] Let_def split: if_splits)
      have pos: "0 \<le> window_end tx start - chunk_overlap"
        using window_end_progress [of start tx] 1(2) by (simp add: chunk_overlap_def)
      from 1(1) [OF lt refl refl nb pos mem] show ?thesis
        using window_end_progress [of start tx] by (simp add: chunk_overlap_def)
    qed
  qed
qed

lemma windows_cover:
  "start \<le> i \<Longrightarrow> i < py_len tx \<Longrightarrow>
     \<exists>(s, e) \<in> set (chunk_windows tx start). s \<le> i \<and> i < e"
proof (induction tx start rule: chunk_windows.induct)
  case (1 tx start)
  from 1(2,3) have lt: "start < py_len tx" by simp
  show ?case
  proof (cases "i < window_end tx start")
    case True
    then show ?thesis using lt 1(2) by (auto simp: chunk_windows.simps [of tx start] Let_def)
  next
    case False
    then have nb: "\<not> window_end tx start - chunk_overlap \<ge> py_len tx"
      and le: "window_end tx start - chunk_overlap \<le> i"
      using 1(3) by (simp_all add: chunk_overlap_def)
    from 1(1) [OF lt refl refl nb le 1(3)] show ?thesis
      using lt nb by (auto simp: chunk_windows.simps [of tx start] Let_def)
  qed
qed

lemma windows_two: "chunk_size < py_len tx \<Longrightarrow> 2 \<le> length (chunk_windows tx 0)"
proof -
  assume big: "chunk_size < py_len tx"
  then have lt: "0 < py_len tx" by (simp add: chunk_size_def)
  have up: "window_end tx 0 \<le> chunk_size" using window_end_upper [of 0 tx] by simp
  then have nb: "\<not> window_end tx 0 - chunk_overlap \<ge> py_len tx"
    using big by (simp add: chunk_overlap_def)
  have lt2: "window_end tx 0 - chunk_overlap < py_len tx" using nb by simp
  show ?thesis using lt nb lt2
    by (simp add: chunk_windows.simps [of tx 0] chunk_windows.simps [of tx "window_end tx 0 - chunk_overlap"] Let_def)
qed

lemma strip_length: "length (py_strip s) \<le> length s"
proof -
  have "length (dropWhile is_space (rev (dropWhile is_space s))) \<le> length (rev (dropWhile is_space s))"
    by (rule length_dropWhile_le)
  also have "\<dots> \<le> length s" by (simp add: length_dropWhile_le)
  finally show ?thesis by (simp add: py_strip_def)
qed

lemma slice_length: "s \<le> e \<Longrightarrow> 0 \<le> s \<Longrightarrow> py_len (py_slice tx s e) \<le> e - s"
  by (auto simp: py_slice_def py_len_def py_index_def Let_def)

lemma all_space_strip: "\<forall>c\<in>set s. is_space c \<Longrightarrow> py_strip s = []"
proof -
  assume "\<forall>c\<in>set s. is_space c"
  then have h: "dropWhile is_space s = []" by simp
  show ?thesis unfolding py_strip_def h by simp
qed

lemma slice_set: "set (py_slice tx s e) \<subseteq> set tx"
  by (auto simp: py_slice_def Let_def dest: in_set_takeD in_set_dropD)


lemma windows_count:
  "301 * int (length (chunk_windows tx start)) \<le> max 0 (py_len tx - start) + 300"
proof (induction tx start rule: chunk_windows.induct)
  case (1 tx start)
  show ?case
  proof (cases "start < py_len tx")
    case False
    then show ?thesis by (simp add: chunk_windows.simps [of tx start])
  next
    case True
    note lt = this
    show ?thesis
    proof (cases "window_end tx start - chunk_overlap \<ge> py_len tx")
      case True
      with lt show ?thesis by (simp add: chunk_windows.simps [of tx start] Let_def)
    next
      case False
      from 1 [OF lt refl refl False] False lt window_end_progress [of start tx]
      show ?thesis
        by (simp add: chunk_windows.simps [of tx start] Let_def chunk_overlap_def)
    qed
  qed
qed

text \<open>
  Claim C7. \<open>chunk_text\<close> terminates for every input: whatever the text and the window
  start, the next start \<open>end - chunk_overlap\<close> lies more than 300 characters past the
  current one; the loop therefore runs at most once per 301 characters left between the
  start and the end of the text; and its result is the chunks of exactly those windows.
  (That \<open>chunk_loop\<close> is a total function is the termination proof of its definition.)
\<close>

theorem chunk_text_terminates:
  "start + 300 < window_end tx start - chunk_overlap
   \<and> 301 * int (length (chunk_windows tx start)) \<le> max 0 (py_len tx - start) + 300
   \<and> chunk_loop tx start chunks =
       chunks @ filter (\<lambda>c. c \<noteq> [])
                  (map (\<lambda>(s, e). py_strip (py_slice tx s e)) (chunk_windows tx start))"
  using window_end_progress [of start tx] windows_count [of tx start]
    chunk_loop_windows [of tx start chunks]
  by (simp add: chunk_overlap_def)

lemma whitespace_chunks:
  assumes "\<forall>c\<in>set tx. is_space c"
  shows "filter (\<lambda>c. c \<noteq> []) (map (\<lambda>(s, e). py_strip (py_slice tx s e)) ws) = []"
proof -
  have "py_strip (py_slice tx s e) = []" for s e
    using assms slice_set [of tx s e] by (intro all_space_strip) auto
  then show ?thesis by (induction ws) auto
qed

text \<open>
  Claim C2, as stated, fails: a text of 1001 spaces is longer than \<open>chunk_size\<close>, every
  window of it is blank after \<open>strip\<close>, and \<open>chunk_text\<close> returns no chunk at all.
\<close>

theorem chunk_text_whitespace_counterexample:
  "chunk_size < py_len (replicate 1001 CHR '' '')
   \<and> chunk_text (replicate 1001 CHR '' '') = []
   \<and> \<not> 2 \<le> length (chunk_text (replicate 1001 CHR '' ''))"
proof -
  have sp: "\<forall>c\<in>set (replicate 1001 CHR '' ''). is_space c"
    by (simp add: is_space_def)
  have big: "chunk_size < py_len (replicate 1001 CHR '' '')"
    by (simp add: chunk_size_def py_len_def)
  have "chunk_text (replicate 1001 CHR '' '') = []"
    using big whitespace_chunks [OF sp]
    by (simp add: chunk_text_def chunk_loop_windows)
  with big show ?thesis by simp
qed

text \<open>
  Claim C2, amended. For every text longer than \<open>chunk_size\<close>, \<open>chunk_text\<close> returns
  the stripped slices of the windows its loop visits, leaving out those that are empty after
  stripping; there are at least two windows; each window starts inside the text and is
  non-empty and at most \<open>chunk_size\<close> long; every position of the text lies in some window
  (no character range is skipped); and every returned chunk is non-empty and at most
  \<open>chunk_size\<close> long.
\<close>

theorem chunk_text_windows:
  assumes "chunk_size < py_len tx"
  shows "chunk_text tx =
           filter (\<lambda>c. c \<noteq> [])
             (map (\<lambda>(s, e). py_strip (py_slice tx s e)) (chunk_windows tx 0))
         \<and> 2 \<le> length (chunk_windows tx 0)
         \<and> (\<forall>(s, e) \<in> set (chunk_windows tx 0).
               0 \<le> s \<and> s < py_len tx \<and> s < e \<and> e \<le> s + chunk_size)
         \<and> (\<forall>i. 0 \<le> i \<and> i < py_len tx \<longrightarrow>
               (\<exists>(s, e) \<in> set (chunk_windows tx 0). s \<le> i \<and> i < e))
         \<and> (\<forall>c \<in> set (chunk_text tx). c \<noteq> [] \<and> py_len c \<le> chunk_size)"
proof -
  have eq: "chunk_text tx =
           filter (\<lambda>c. c \<noteq> [])
             (map (\<lambda>(s, e). py_strip (py_slice tx s e)) (chunk_windows tx 0))"
    using assms by (simp add: chunk_text_def chunk_loop_windows)
  have two: "2 \<le> length (chunk_windows tx 0)"
    using assms by (rule windows_two)
  have bnd: "\<forall>(s, e) \<in> set (chunk_windows tx 0).
               0 \<le> s \<and> s < py_len tx \<and> s < e \<and> e \<le> s + chunk_size"
    using windows_bounds [of 0 _ _ tx] by fastforce
  have cov: "\<forall>i. 0 \<le> i \<and> i < py_len tx \<longrightarrow>
               (\<exists>(s, e) \<in> set (chunk_windows tx 0). s \<le> i \<and> i < e)"
    using windows_cover [of 0 _ tx] by blast
  have len: "\<forall>c \<in> set (chunk_text tx). c \<noteq> [] \<and> py_len c \<le> chunk_size"
  proof
    fix c assume "c \<in> set (chunk_text tx)"
    then obtain s e where ne: "c \<noteq> []" and c: "c = py_strip (py_slice tx s e)"
      and w: "(s, e) \<in> set (chunk_windows tx 0)"
      unfolding eq by auto
    from windows_bounds [OF _ w] have "0 \<le> s" "s \<le> e" "e \<le> s + chunk_size" by simp_all
    then have "py_len (py_slice tx s e) \<le> chunk_size"
      using slice_length [of s e tx] by simp
    moreover have "py_len c \<le> py_len (py_slice tx s e)"
      unfolding c py_len_def using strip_length by simp
    ultimately show "c \<noteq> [] \<and> py_len c \<le> chunk_size" using ne by simp
  qed
  from eq two bnd cov len show ?thesis by blast
qed

text \<open>Witness for C2 (amended): a text of 1001 letters.\<close>

theorem chunk_text_windows_witness:
  "chunk_size < py_len (replicate 1001 CHR ''a'')
   \<and> 2 \<le> length (chunk_windows (replicate 1001 CHR ''a'') 0)
   \<and> chunk_text (replicate 1001 CHR ''a'') =
       filter (\<lambda>c. c \<noteq> [])
         (map (\<lambda>(s, e). py_strip (py_slice (replicate 1001 CHR ''a'') s e))
            (chunk_windows (replicate 1001 CHR ''a'') 0))"
proof -
  have h: "chunk_size < py_len (replicate 1001 CHR ''a'')"
    by (simp add: chunk_size_def py_len_def)
  show ?thesis using h chunk_text_windows [OF h] by blast
qed

section \<open>Properties of the hash-based embedding\<close>

lemma hex_value_digit_all: "list_all (\<lambda>n. hex_value (hex_digit n) = Some n) [0..<16]"
  by code_simp

lemma hex_value_digit: "n < 16 \<Longrightarrow> hex_value (hex_digit n) = Some n"
  using hex_value_digit_all by (simp add: list_all_iff del: upt.simps)

lemma py_int16_hex_byte: "py_int16 (hex_byte b) = Inr (int (unat b))"
proof -
  have d: "unat b div 16 < 16"
    using unsigned_less [of b, where 'a = nat] by (simp add: less_mult_imp_div_less)
  have m: "unat b mod 16 < 16" by simp
  show ?thesis
    using hex_value_digit [OF d] hex_value_digit [OF m]
    by (simp add: py_int16_def hex_byte_def)
qed

lemma length_hex_bytes: "length (concat (map hex_byte bs)) = 2 * length bs"
  by (induction bs) (simp_all add: hex_byte_def)

lemma drop_hex_bytes:
  "drop (2 * k) (concat (map hex_byte bs)) = concat (map hex_byte (drop k bs))"
proof (induction bs arbitrary: k)
  case Nil
  then show ?case by simp
next
  case (Cons b bs)
  show ?case
  proof (cases k)
    case 0
    then show ?thesis by simp
  next
    case (Suc j)
    then show ?thesis using Cons [of j] by (simp add: hex_byte_def)
  qed
qed

lemma slice_hex_bytes:
  assumes "k < length bs"
  shows "py_slice (concat (map hex_byte bs)) (int (2 * k)) (int (2 * k) + 2) = hex_byte (bs ! k)"
proof -
  let ?h = "concat (map hex_byte bs)"
  have len: "length ?h = 2 * length bs" by (rule length_hex_bytes)
  have lo: "py_index (py_len ?h) (int (2 * k)) = 2 * k"
    using assms len by (simp add: py_index_def py_len_def)
  have hi: "py_index (py_len ?h) (int (2 * k) + 2) = 2 * k + 2"
    using assms len by (simp add: py_index_def py_len_def min_def)
  have "drop k bs = bs ! k # drop (Suc k) bs"
    using assms by (simp add: Cons_nth_drop_Suc)
  then have "take 2 (drop (2 * k) ?h) = hex_byte (bs ! k)"
    by (simp add: drop_hex_bytes hex_byte_def)
  then show ?thesis
    unfolding py_slice_def Let_def lo hi by simp
qed

lemma hash_pairs_hex_bytes:
  assumes "length bs \<le> 192"
  shows "k \<le> length bs \<Longrightarrow>
         hash_pairs (concat (map hex_byte bs)) (2 * k) acc =
           Inr (acc @ map (\<lambda>b. real (unat b) / 255) (drop k bs))"
proof (induction "length bs - k" arbitrary: k acc)
  case 0
  then show ?case
    using assms by (simp add: hash_pairs.simps [of _ "2 * k"] length_hex_bytes)
next
  case (Suc n)
  then have lt: "k < length bs" by simp
  have cond: "2 * k < min (length (concat (map hex_byte bs))) 384"
    using lt assms by (simp add: length_hex_bytes)
  have step: "hash_pairs (concat (map hex_byte bs)) (2 * Suc k) (acc @ [real (unat (bs ! k)) / 255]) =
     Inr ((acc @ [real (unat (bs ! k)) / 255]) @ map (\<lambda>b. real (unat b) / 255) (drop (Suc k) bs))"
    using Suc(1) [of "Suc k"] Suc(2) lt by simp
  have dr: "drop k bs = bs ! k # drop (Suc k) bs"
    using lt by (simp add: Cons_nth_drop_Suc)
  show ?case
    using cond step slice_hex_bytes [OF lt] py_int16_hex_byte [of "bs ! k"]
    by (simp add: hash_pairs.simps [of _ "2 * k"] dr)
qed

lemma pad_loop_eq: "pad_loop e = e @ replicate (384 - length e) 0"
proof (induction e rule: pad_loop.induct)
  case (1 e)
  show ?case
  proof (cases "length e < 384")
    case True
    then have "384 - length e = Suc (384 - Suc (length e))" by simp
    then have "replicate (384 - length e) (0::real) = 0 # replicate (384 - Suc (length e)) 0"
      by (metis replicate_Suc)
    with True 1 show ?thesis by (simp add: pad_loop.simps [of e])
  next
    case False
    then show ?thesis by (simp add: pad_loop.simps [of e])
  qed
qed

lemma length_digest_bytes: "length (digest_bytes d) = 16"
  by (simp add: digest_bytes_def)

lemma utf8_encode_ok:
  "\<forall>c \<in> set tx. \<not> is_surrogate c \<Longrightarrow> utf8_encode tx = Inr (concat (map utf8_char tx))"
  by (simp add: utf8_encode_def list_ex_iff)

lemma utf8_encode_fail:
  "\<exists>c \<in> set tx. is_surrogate c \<Longrightarrow>
     utf8_encode tx = Inl (UnicodeEncodeError ''surrogates not allowed'')"
  by (simp add: utf8_encode_def list_ex_iff)

lemma digest_vector:
  "(case hash_pairs (hexdigest d) 0 [] of
      Inl e \<Rightarrow> Inl e
    | Inr embedding \<Rightarrow> Inr (take 384 (pad_loop embedding)))
   = Inr (map (\<lambda>b. real (unat b) / 255) (digest_bytes d) @ replicate 368 0)"
proof -
  have "hash_pairs (hexdigest d) 0 [] = Inr (map (\<lambda>b. real (unat b) / 255) (digest_bytes d))"
    using hash_pairs_hex_bytes [of "digest_bytes d" 0 "[]"]
    by (simp add: hexdigest_def length_digest_bytes)
  then show ?thesis
    by (simp add: pad_loop_eq length_digest_bytes)
qed

lemma hash_embedding_eq:
  "\<forall>c \<in> set tx. \<not> is_surrogate c \<Longrightarrow>
     hash_embedding md5 tx =
       Inr (map (\<lambda>b. real (unat b) / 255) (digest_bytes (md5 (concat (map utf8_char tx))))
            @ replicate 368 0)"
  by (simp add: hash_embedding_def utf8_encode_ok digest_vector)

lemma hash_embedding_fail:
  "\<exists>c \<in> set tx. is_surrogate c \<Longrightarrow>
     hash_embedding md5 tx = Inl (UnicodeEncodeError ''surrogates not allowed'')"
  by (simp add: hash_embedding_def utf8_encode_fail)

lemma hash_embedding_result:
  "hash_embedding md5 tx = Inr v \<Longrightarrow>
     v = map (\<lambda>b. real (unat b) / 255) (digest_bytes (md5 (concat (map utf8_char tx))))
         @ replicate 368 0"
proof (cases "\<exists>c \<in> set tx. is_surrogate c")
  case True
  then show "hash_embedding md5 tx = Inr v \<Longrightarrow> ?thesis"
    using hash_embedding_fail [of tx md5] by simp
next
  case False
  then have "\<forall>c \<in> set tx. \<not> is_surrogate c" by simp
  then show "hash_embedding md5 tx = Inr v \<Longrightarrow> ?thesis"
    using hash_embedding_eq [of tx md5] by simp
qed

lemma generate_hash_embeddings_eq:
  "\<forall>t \<in> set txs. \<forall>c \<in> set t. \<not> is_surrogate c \<Longrightarrow>
   generate_hash_embeddings md5 txs =
     Inr (map (\<lambda>tx. map (\<lambda>b. real (unat b) / 255)
                       (digest_bytes (md5 (concat (map utf8_char tx)))) @ replicate 368 0) txs)"
  by (induction txs) (simp_all add: hash_embedding_eq)

lemma generate_hash_embeddings_fail:
  "\<exists>t \<in> set txs. \<exists>c \<in> set t. is_surrogate c \<Longrightarrow>
   generate_hash_embeddings md5 txs = Inl (UnicodeEncodeError ''surrogates not allowed'')"
proof (induction txs)
  case Nil
  then show ?case by simp
next
  case (Cons t ts)
  show ?case
  proof (cases "\<exists>c \<in> set t. is_surrogate c")
    case True
    then show ?thesis by (simp add: hash_embedding_fail)
  next
    case False
    then have ok: "\<forall>c \<in> set t. \<not> is_surrogate c" by simp
    from False Cons.prems have "\<exists>t \<in> set ts. \<exists>c \<in> set t. is_surrogate c" by auto
    then have "generate_hash_embeddings md5 ts = Inl (UnicodeEncodeError ''surrogates not allowed'')"
      by (rule Cons.IH)
    then show ?thesis by (simp add: hash_embedding_eq [OF ok])
  qed
qed

lemma digest_bytes_inj: "digest_bytes a = digest_bytes b \<Longrightarrow> a = b"
proof -
  assume eq: "digest_bytes a = digest_bytes b"
  have byte: "(ucast (drop_bit (8 * (15 - i)) a) :: 8 word) = ucast (drop_bit (8 * (15 - i)) b)"
    if "i < 16" for i
  proof -
    have "digest_bytes a ! i = digest_bytes b ! i" using eq by simp
    then show ?thesis using that by (simp add: digest_bytes_def)
  qed
  show "a = b"
  proof (rule bit_word_eqI)
    fix n assume "n < LENGTH(128)"
    then have n: "n < 128" by simp
    define i where "i = 15 - n div 8"
    have i: "i < 16" by (simp add: i_def)
    have k: "8 * (15 - i) = 8 * (n div 8)" using n by (simp add: i_def)
    have "bit (ucast (drop_bit (8 * (15 - i)) a) :: 8 word) (n mod 8)
        = bit (ucast (drop_bit (8 * (15 - i)) b) :: 8 word) (n mod 8)"
      using byte [OF i] by simp
    then have "bit a (8 * (n div 8) + n mod 8) = bit b (8 * (n div 8) + n mod 8)"
      unfolding k by (simp add: bit_ucast_iff bit_drop_bit_eq)
    then show "bit a n = bit b n" by simp
  qed
qed

lemma byte_vector_inj:
  "map (\<lambda>b. real (unat b) / 255) (bs :: 8 word list) = map (\<lambda>b. real (unat b) / 255) cs \<Longrightarrow> bs = cs"
proof -
  have "inj (\<lambda>b :: 8 word. real (unat b) / 255)"
  proof (rule injI)
    fix x y :: "8 word"
    assume "real (unat x) / 255 = real (unat y) / 255"
    then have "real (unat x) = real (unat y)" by (simp only: divide_cancel_right) simp
    then have "unat x = unat y" by (simp only: of_nat_eq_iff)
    then show "x = y" by (simp only: word_unat_eq_iff)
  qed
  then show "map (\<lambda>b. real (unat b) / 255) bs = map (\<lambda>b. real (unat b) / 255) cs \<Longrightarrow> bs = cs"
    by (rule inj_map_eq_map [THEN iffD1])
qed

lemma hash_embedding_inj:
  assumes "\<forall>c \<in> set t1. \<not> is_surrogate c" and "\<forall>c \<in> set t2. \<not> is_surrogate c"
  shows "hash_embedding md5 t1 = hash_embedding md5 t2
           \<longleftrightarrow> md5 (concat (map utf8_char t1)) = md5 (concat (map utf8_char t2))"
proof
  assume "hash_embedding md5 t1 = hash_embedding md5 t2"
  then have "map (\<lambda>b. real (unat b) / 255) (digest_bytes (md5 (concat (map utf8_char t1))))
           = map (\<lambda>b. real (unat b) / 255) (digest_bytes (md5 (concat (map utf8_char t2))))"
    by (simp add: hash_embedding_eq assms)
  then show "md5 (concat (map utf8_char t1)) = md5 (concat (map utf8_char t2))"
    using byte_vector_inj digest_bytes_inj by blast
next
  assume "md5 (concat (map utf8_char t1)) = md5 (concat (map utf8_char t2))"
  then show "hash_embedding md5 t1 = hash_embedding md5 t2"
    by (simp add: hash_embedding_eq assms)
qed

lemma byte_unit: "0 \<le> real (unat (b :: 8 word)) / 255 \<and> real (unat b) / 255 \<le> 1"
proof -
  have "unat b < 256" using unsigned_less [of b, where 'a = nat] by simp
  then have "unat b \<le> 255" by simp
  then have "real (unat b) \<le> real 255" by (simp only: of_nat_le_iff)
  moreover have "0 \<le> real (unat b)" by (rule of_nat_0_le_iff)
  ultimately show ?thesis by simp
qed

text \<open>
  Claim C3, as stated, fails: a text that holds a lone surrogate cannot be encoded, so
  \<open>text.encode()\<close> raises and neither the embedding of that text nor the batch that
  contains it yields a vector.
\<close>

theorem hash_embedding_surrogate_counterexample:
  "hash_embedding (md5_digest (stub_services always_answer)) [55296]
     = Inl (UnicodeEncodeError ''surrogates not allowed'')
   \<and> generate_hash_embeddings (md5_digest (stub_services always_answer)) [[55296]]
     = Inl (UnicodeEncodeError ''surrogates not allowed'')"
  by (simp add: hash_embedding_def utf8_encode_def is_surrogate_def)

text \<open>
  Claim C3, amended. For every batch of texts without surrogate code points the hash-based
  fallback returns one vector per text, in input order, each the embedding of that text, of
  exactly 384 components, every component between 0 and 1. It is a function of the texts
  alone: two such texts get the same vector exactly when the digests of their encodings are
  equal, so the same text always gets the same vector and different texts get different
  vectors unless their MD5 digests collide. A batch that holds a text with a surrogate
  raises \<open>UnicodeEncodeError\<close>.
\<close>

theorem hash_embeddings_encodable:
  "((\<forall>t \<in> set txs. \<forall>c \<in> set t. \<not> is_surrogate c) \<longrightarrow>
      (\<exists>vs. generate_hash_embeddings md5 txs = Inr vs \<and> length vs = length txs
         \<and> (\<forall>i < length txs.
               hash_embedding md5 (txs ! i) = Inr (vs ! i)
               \<and> length (vs ! i) = 384
               \<and> (\<forall>x \<in> set (vs ! i). 0 \<le> x \<and> x \<le> 1))))
   \<and> ((\<forall>c \<in> set t1. \<not> is_surrogate c) \<and> (\<forall>c \<in> set t2. \<not> is_surrogate c) \<longrightarrow>
        (hash_embedding md5 t1 = hash_embedding md5 t2
           \<longleftrightarrow> md5 (concat (map utf8_char t1)) = md5 (concat (map utf8_char t2))))
   \<and> ((\<exists>t \<in> set txs. \<exists>c \<in> set t. is_surrogate c) \<longrightarrow>
        generate_hash_embeddings md5 txs = Inl (UnicodeEncodeError ''surrogates not allowed''))"
proof -
  let ?vec = "\<lambda>tx. map (\<lambda>b. real (unat b) / 255)
                       (digest_bytes (md5 (concat (map utf8_char tx)))) @ replicate 368 (0::real)"
  have len: "length (?vec tx) = 384" for tx
    by (simp add: length_digest_bytes)
  have rng: "\<forall>x \<in> set (?vec tx). 0 \<le> x \<and> x \<le> 1" for tx
    using byte_unit by auto
  have a: "\<exists>vs. generate_hash_embeddings md5 txs = Inr vs \<and> length vs = length txs
         \<and> (\<forall>i < length txs.
               hash_embedding md5 (txs ! i) = Inr (vs ! i)
               \<and> length (vs ! i) = 384
               \<and> (\<forall>x \<in> set (vs ! i). 0 \<le> x \<and> x \<le> 1))"
    if ok: "\<forall>t \<in> set txs. \<forall>c \<in> set t. \<not> is_surrogate c"
  proof -
    have "generate_hash_embeddings md5 txs = Inr (map ?vec txs)"
      using ok by (rule generate_hash_embeddings_eq)
    moreover have "length (map ?vec txs) = length txs" by simp
    moreover have "\<forall>i < length txs.
              hash_embedding md5 (txs ! i) = Inr (map ?vec txs ! i)
              \<and> length (map ?vec txs ! i) = 384
              \<and> (\<forall>x \<in> set (map ?vec txs ! i). 0 \<le> x \<and> x \<le> 1)"
    proof (intro allI impI)
      fix i assume i: "i < length txs"
      then have "txs ! i \<in> set txs" by (rule nth_mem)
      with ok have "\<forall>c \<in> set (txs ! i). \<not> is_surrogate c" by blast
      then have "hash_embedding md5 (txs ! i) = Inr (?vec (txs ! i))"
        by (rule hash_embedding_eq)
      then show "hash_embedding md5 (txs ! i) = Inr (map ?vec txs ! i)
              \<and> length (map ?vec txs ! i) = 384
              \<and> (\<forall>x \<in> set (map ?vec txs ! i). 0 \<le> x \<and> x \<le> 1)"
        using i len [of "txs ! i"] rng [of "txs ! i"] by simp
    qed
    ultimately show ?thesis by blast
  qed
  have b: "hash_embedding md5 t1 = hash_embedding md5 t2
           \<longleftrightarrow> md5 (concat (map utf8_char t1)) = md5 (concat (map utf8_char t2))"
    if "(\<forall>c \<in> set t1. \<not> is_surrogate c) \<and> (\<forall>c \<in> set t2. \<not> is_surrogate c)"
    using that hash_embedding_inj [of t1 t2 md5] by blast
  have c: "generate_hash_embeddings md5 txs = Inl (UnicodeEncodeError ''surrogates not allowed'')"
    if "\<exists>t \<in> set txs. \<exists>c \<in> set t. is_surrogate c"
    using that by (rule generate_hash_embeddings_fail)
  from a b c show ?thesis by blast
qed

text \<open>
  Witness for C3 (amended): the batch of the empty text and \<open>abc\<close>, with their MD5
  digests, and a batch whose second text is a lone surrogate.
\<close>

theorem hash_embeddings_encodable_witness:
  "\<not> is_surrogate 97 \<and> \<not> is_surrogate 98 \<and> \<not> is_surrogate 99 \<and> is_surrogate 55296
   \<and> (\<exists>vs. generate_hash_embeddings
           (\<lambda>b. if b = [] then 0xd41d8cd98f00b204e9800998ecf8427e
                 else 0x900150983cd24fb0d6963f7d28e17f72) [[], [97, 98, 99]] = Inr vs
        \<and> length vs = 2
        \<and> hash_embedding
            (\<lambda>b. if b = [] then 0xd41d8cd98f00b204e9800998ecf8427e
                  else 0x900150983cd24fb0d6963f7d28e17f72) [] = Inr (vs ! 0)
        \<and> hash_embedding
            (\<lambda>b. if b = [] then 0xd41d8cd98f00b204e9800998ecf8427e
                  else 0x900150983cd24fb0d6963f7d28e17f72) [97, 98, 99] = Inr (vs ! 1)
        \<and> length (vs ! 0) = 384 \<and> length (vs ! 1) = 384)
   \<and> generate_hash_embeddings
           (\<lambda>b. if b = [] then 0xd41d8cd98f00b204e9800998ecf8427e
                 else 0x900150983cd24fb0d6963f7d28e17f72) [[97], [55296]]
       = Inl (UnicodeEncodeError ''surrogates not allowed'')"
proof -
  let ?md5 = "\<lambda>b :: 8 word list. if b = [] then (0xd41d8cd98f00b204e9800998ecf8427e :: 128 word)
                 else 0x900150983cd24fb0d6963f7d28e17f72"
  have s: "\<not> is_surrogate 97" "\<not> is_surrogate 98" "\<not> is_surrogate 99" "is_surrogate 55296"
    by (simp_all add: is_surrogate_def)
  have ok: "\<forall>t \<in> set [[], [97, 98, 99]]. \<forall>c \<in> set t. \<not> is_surrogate c"
    using s by simp
  have bad: "\<exists>t \<in> set [[97], [55296]]. \<exists>c \<in> set t. is_surrogate c"
    using s by simp
  from hash_embeddings_encodable [of "[[], [97, 98, 99]]" ?md5 "[]" "[]"] ok
  obtain vs where g: "generate_hash_embeddings ?md5 [[], [97, 98, 99]] = Inr vs"
    and l: "length vs = length [[] :: nat list, [97, 98, 99]]"
    and a: "\<forall>i < length [[] :: nat list, [97, 98, 99]].
            hash_embedding ?md5 ([[], [97, 98, 99]] ! i) = Inr (vs ! i)
            \<and> length (vs ! i) = 384
            \<and> (\<forall>x \<in> set (vs ! i). 0 \<le> x \<and> x \<le> 1)"
    by blast
  have i0: "0 < length [[] :: nat list, [97, 98, 99]]"
    and i1: "1 < length [[] :: nat list, [97, 98, 99]]"
    by simp_all
  from a i0 have "hash_embedding ?md5 ([[], [97, 98, 99]] ! 0) = Inr (vs ! 0)
      \<and> length (vs ! 0) = 384"
    by blast
  moreover from a i1 have "hash_embedding ?md5 ([[], [97, 98, 99]] ! 1) = Inr (vs ! 1)
      \<and> length (vs ! 1) = 384"
    by blast
  ultimately have first: "\<exists>vs. generate_hash_embeddings ?md5 [[], [97, 98, 99]] = Inr vs
        \<and> length vs = 2
        \<and> hash_embedding ?md5 [] = Inr (vs ! 0)
        \<and> hash_embedding ?md5 [97, 98, 99] = Inr (vs ! 1)
        \<and> length (vs ! 0) = 384 \<and> length (vs ! 1) = 384"
    using g l by auto
  from hash_embeddings_encodable [of "[[97], [55296]]" ?md5 "[]" "[]"] bad
  have second: "generate_hash_embeddings ?md5 [[97], [55296]]
       = Inl (UnicodeEncodeError ''surrogates not allowed'')"
    by blast
  from s first second show ?thesis by (intro conjI)
qed

text \<open>
  Claim C10. Every text without surrogate code points gets a vector. The hexadecimal digest
  has 32 characters, so only the components 0 to 15 of the 384 come from the hash: in every
  vector the embedding produces, the components 16 to 383 are exactly 0 and at most 16
  components are non-zero.
\<close>

theorem hash_embedding_zero_tail:
  "((\<forall>c \<in> set tx. \<not> is_surrogate c) \<longrightarrow> (\<exists>v. hash_embedding md5 tx = Inr v))
   \<and> length (hexdigest d) = 32
   \<and> (\<forall>v. hash_embedding md5 tx = Inr v \<longrightarrow>
          length v = 384
          \<and> (\<forall>i. 16 \<le> i \<and> i < 384 \<longrightarrow> v ! i = 0)
          \<and> card {i. i < 384 \<and> v ! i \<noteq> 0} \<le> 16)"
proof -
  have shape: "length v = 384
          \<and> (\<forall>i. 16 \<le> i \<and> i < 384 \<longrightarrow> v ! i = 0)
          \<and> card {i. i < 384 \<and> v ! i \<noteq> 0} \<le> 16"
    if r: "hash_embedding md5 tx = Inr v" for v
  proof -
    let ?bs = "digest_bytes (md5 (concat (map utf8_char tx)))"
    have v: "v = map (\<lambda>b. real (unat b) / 255) ?bs @ replicate 368 (0::real)"
      using r by (rule hash_embedding_result)
    have z: "\<forall>i. 16 \<le> i \<and> i < 384 \<longrightarrow> v ! i = 0"
    proof (intro allI impI)
      fix i :: nat assume i: "16 \<le> i \<and> i < 384"
      then have "i - 16 < 368" by arith
      then have "replicate 368 (0::real) ! (i - 16) = 0" by (rule nth_replicate)
      then show "v ! i = 0" using i unfolding v by (simp add: nth_append length_digest_bytes)
    qed
    then have "{i. i < 384 \<and> v ! i \<noteq> 0} \<subseteq> {..<16}"
      by (auto simp: not_le [symmetric])
    then have "card {i. i < 384 \<and> v ! i \<noteq> 0} \<le> card {..<16::nat}"
      by (intro card_mono) simp_all
    then have c: "card {i. i < 384 \<and> v ! i \<noteq> 0} \<le> 16" by simp
    have l: "length v = 384" unfolding v by (simp add: length_digest_bytes)
    from l z c show ?thesis by (intro conjI)
  qed
  have h: "length (hexdigest d) = 32"
    by (simp add: hexdigest_def length_hex_bytes length_digest_bytes)
  have ex: "\<exists>v. hash_embedding md5 tx = Inr v" if "\<forall>c \<in> set tx. \<not> is_surrogate c"
    using hash_embedding_eq [OF that, of md5] by blast
  from ex h shape show ?thesis by blast
qed

text \<open>
  Witness for C10: the empty text, with its MD5 digest.
\<close>

theorem hash_embedding_zero_tail_witness:
  "\<exists>v. hash_embedding (\<lambda>b. 0xd41d8cd98f00b204e9800998ecf8427e) [] = Inr v
       \<and> length v = 384 \<and> v ! 16 = 0 \<and> v ! 383 = 0"
proof -
  note inst = hash_embedding_zero_tail [of "[]" "\<lambda>b. 0xd41d8cd98f00b204e9800998ecf8427e" 0]
  have "\<forall>c \<in> set ([] :: nat list). \<not> is_surrogate c" by simp
  with inst obtain v where v: "hash_embedding (\<lambda>b. 0xd41d8cd98f00b204e9800998ecf8427e) [] = Inr v"
    by blast
  with inst have "length v = 384" and z: "\<forall>i. 16 \<le> i \<and> i < 384 \<longrightarrow> v ! i = 0"
    by blast+
  moreover from z have "v ! 16 = 0" "v ! 383 = 0" by simp_all
  ultimately show ?thesis using v by blast
qed

section \<open>Properties of document deletion\<close>

lemma delete_matching_ids:
  assumes "distinct (map entry_id collection)"
  shows "collection_delete collection (collection_get_ids collection cid)
           = filter (\<lambda>e. content_id (entry_metadata e) \<noteq> cid) collection"
proof -
  have inj: "inj_on entry_id (set collection)"
    using assms by (simp add: distinct_map)
  have "entry_id e \<notin> set (collection_get_ids collection cid)
          \<longleftrightarrow> content_id (entry_metadata e) \<noteq> cid"
    if "e \<in> set collection" for e
    using that inj by (auto simp: collection_get_ids_def dest: inj_onD)
  then show ?thesis
    unfolding collection_delete_def by (intro filter_cong) auto
qed

lemma no_match_filter:
  "collection_get_ids collection cid = [] \<Longrightarrow>
     filter (\<lambda>e. content_id (entry_metadata e) \<noteq> cid) collection = collection"
  by (auto simp: collection_get_ids_def filter_empty_conv filter_id_conv)

lemma count_after_filter:
  "collection_count (filter (\<lambda>e. content_id (entry_metadata e) \<noteq> cid) collection)
     = collection_count collection
       - py_len (filter (\<lambda>e. content_id (entry_metadata e) = cid) collection)"
  using sum_length_filter_compl [of "\<lambda>e. content_id (entry_metadata e) = cid" collection]
  by (simp add: collection_count_def py_len_def)

text \<open>
  Claim C6. For a user whose collection exists (chunk ids are unique within a collection),
  \<open>delete_document\<close> returns without an exception; afterwards the collection holds
  exactly the chunks whose \<open>content_id\<close> differs from the given one, unchanged and in
  their order; every other collection is untouched; the count has dropped by the number of
  chunks that carried the id; and when no chunk carries it the store is unchanged.
\<close>

theorem delete_document_exact:
  assumes "st (collection_name user_id) = Some collection"
    and "distinct (map entry_id collection)"
  shows "\<exists>st'. delete_document st user_id cid = Inr st'
           \<and> st' (collection_name user_id)
               = Some (filter (\<lambda>e. content_id (entry_metadata e) \<noteq> cid) collection)
           \<and> (\<forall>name. name \<noteq> collection_name user_id \<longrightarrow> st' name = st name)
           \<and> collection_count (filter (\<lambda>e. content_id (entry_metadata e) \<noteq> cid) collection)
               = collection_count collection
                 - py_len (filter (\<lambda>e. content_id (entry_metadata e) = cid) collection)
           \<and> ((\<forall>e \<in> set collection. content_id (entry_metadata e) \<noteq> cid) \<longrightarrow> st' = st)"
proof (cases "collection_get_ids collection cid = []")
  case True
  then have "delete_document st user_id cid = Inr st"
    using assms(1) by (simp add: delete_document_def get_user_collection_def get_collection_def)
  then show ?thesis
    using assms(1) no_match_filter [OF True] count_after_filter [of cid collection] by simp
next
  case False
  then have "delete_document st user_id cid
      = Inr (st(collection_name user_id \<mapsto>
               filter (\<lambda>e. content_id (entry_metadata e) \<noteq> cid) collection))"
    using assms(1) delete_matching_ids [OF assms(2), of cid]
    by (simp add: delete_document_def get_user_collection_def get_collection_def)
  moreover have "\<not> (\<forall>e \<in> set collection. content_id (entry_metadata e) \<noteq> cid)"
    using False by (auto simp: collection_get_ids_def filter_empty_conv)
  ultimately show ?thesis
    using count_after_filter [of cid collection] by auto
qed


text \<open>
  Witness for C6: two documents of one chunk each for user \<open>u1\<close>; deleting document
  \<open>a\<close> leaves the chunk of document \<open>b\<close>.
\<close>

theorem delete_document_exact_witness:
  "(Map.empty(''user_u1'' \<mapsto>
      [\<lparr>entry_id = ''a_chunk_0'', entry_embedding = [0], entry_document = ''first text'',
        entry_metadata = \<lparr>content_id = ''a'', source = ''a.txt'', content_type = ''text'',
          chunk_index = 0, total_chunks = 1, chunk_length = 10\<rparr>\<rparr>,
       \<lparr>entry_id = ''b_chunk_0'', entry_embedding = [1], entry_document = ''second text'',
        entry_metadata = \<lparr>content_id = ''b'', source = ''b.txt'', content_type = ''text'',
          chunk_index = 0, total_chunks = 1, chunk_length = 11\<rparr>\<rparr>]))
     (collection_name ''u1'')
   = Some
      [\<lparr>entry_id = ''a_chunk_0'', entry_embedding = [0], entry_document = ''first text'',
        entry_metadata = \<lparr>content_id = ''a'', source = ''a.txt'', content_type = ''text'',
          chunk_index = 0, total_chunks = 1, chunk_length = 10\<rparr>\<rparr>,
       \<lparr>entry_id = ''b_chunk_0'', entry_embedding = [1], entry_document = ''second text'',
        entry_metadata = \<lparr>content_id = ''b'', source = ''b.txt'', content_type = ''text'',
          chunk_index = 0, total_chunks = 1, chunk_length = 11\<rparr>\<rparr>]
   \<and> distinct (map entry_id
      [\<lparr>entry_id = ''a_chunk_0'', entry_embedding = [0], entry_document = ''first text'',
        entry_metadata = \<lparr>content_id = ''a'', source = ''a.txt'', content_type = ''text'',
          chunk_index = 0, total_chunks = 1, chunk_length = 10\<rparr>\<rparr>,
       \<lparr>entry_id = ''b_chunk_0'', entry_embedding = [1], entry_document = ''second text'',
        entry_metadata = \<lparr>content_id = ''b'', source = ''b.txt'', content_type = ''text'',
          chunk_index = 0, total_chunks = 1, chunk_length = 11\<rparr>\<rparr>])
   \<and> (\<exists>st'. delete_document
        (Map.empty(''user_u1'' \<mapsto>
      [\<lparr>entry_id = ''a_chunk_0'', entry_embedding = [0], entry_document = ''first text'',
        entry_metadata = \<lparr>content_id = ''a'', source = ''a.txt'', content_type = ''text'',
          chunk_index = 0, total_chunks = 1, chunk_length = 10\<rparr>\<rparr>,
       \<lparr>entry_id = ''b_chunk_0'', entry_embedding = [1], entry_document = ''second text'',
        entry_metadata = \<lparr>content_id = ''b'', source = ''b.txt'', content_type = ''text'',
          chunk_index = 0, total_chunks = 1, chunk_length = 11\<rparr>\<rparr>])) ''u1'' ''a'' = Inr st'
      \<and> st' (collection_name ''u1'') = Some
       [\<lparr>entry_id = ''b_chunk_0'', entry_embedding = [1], entry_document = ''second text'',
        entry_metadata = \<lparr>content_id = ''b'', source = ''b.txt'', content_type = ''text'',
          chunk_index = 0, total_chunks = 1, chunk_length = 11\<rparr>\<rparr>])"
proof -
  let ?a = "\<lparr>entry_id = ''a_chunk_0'', entry_embedding = [0::real], entry_document = ''first text'',
        entry_metadata = \<lparr>content_id = ''a'', source = ''a.txt'', content_type = ''text'',
          chunk_index = 0, total_chunks = 1, chunk_length = 10\<rparr>\<rparr>"
  let ?b = "\<lparr>entry_id = ''b_chunk_0'', entry_embedding = [1::real], entry_document = ''second text'',
        entry_metadata = \<lparr>content_id = ''b'', source = ''b.txt'', content_type = ''text'',
          chunk_index = 0, total_chunks = 1, chunk_length = 11\<rparr>\<rparr>"
  let ?st = "Map.empty(''user_u1'' \<mapsto> [?a, ?b])"
  have h1: "?st (collection_name ''u1'') = Some [?a, ?b]"
    by (simp add: collection_name_def)
  have h2: "distinct (map entry_id [?a, ?b])"
    by simp
  from delete_document_exact [of ?st "''u1''" "[?a, ?b]" "''a''", OF h1 h2]
  obtain st' where d: "delete_document ?st ''u1'' ''a'' = Inr st'"
    and s: "st' (collection_name ''u1'')
              = Some (filter (\<lambda>e. content_id (entry_metadata e) \<noteq> ''a'') [?a, ?b])"
    by blast
  have "filter (\<lambda>e. content_id (entry_metadata e) \<noteq> ''a'') [?a, ?b] = [?b]"
    by simp
  with s have "st' (collection_name ''u1'') = Some [?b]"
    by (simp only:)
  with d have "\<exists>st'. delete_document ?st ''u1'' ''a'' = Inr st'
      \<and> st' (collection_name ''u1'') = Some [?b]"
    by blast
  with h1 h2 show ?thesis by blast
qed

section \<open>Properties of generation and the orchestrator\<close>

lemma generate_general_response_eq:
  "generate_general_response sv query n =
     (Inr (case generate_content sv n query of
             Inl e \<Rightarrow> general_error_message (str e)
           | Inr response \<Rightarrow> response), Suc n)"
  by (simp add: generate_general_response_def io_try_def call_generate_def io_return_def
      split: sum.splits)

lemma general_fallback_eq:
  "general_fallback sv query n =
     (Inr (case generate_content sv n query of
             Inl e \<Rightarrow> general_error_message (str e)
           | Inr response \<Rightarrow> response, []), Suc n)"
  by (simp add: general_fallback_def io_bind_def io_return_def generate_general_response_eq)

lemma search_relevant_chunks_total:
  "\<exists>hits. search_relevant_chunks sv st user_id query top_k = Inr hits"
  by (simp add: search_relevant_chunks_def split: sum.splits)

lemma rag_body_calls: "snd (rag_body sv st query user_id n) = Suc n"
proof -
  obtain hits where h: "search_relevant_chunks sv st user_id query default_top_k = Inr hits"
    using search_relevant_chunks_total by blast
  show ?thesis
    by (simp add: rag_body_def io_bind_def io_try_def io_lift_def io_return_def h
        general_fallback_eq call_generate_def split: sum.splits option.splits prod.splits)
qed

lemma generate_rag_response_cases:
  "generate_rag_response sv st query user_id n =
     (case rag_body sv st query user_id n of
        (Inr r, n') \<Rightarrow> (Inr r, n')
      | (Inl e, n') \<Rightarrow>
          (Inr ((case generate_content sv n' query of
                   Inl e' \<Rightarrow> general_error_message (str e')
                 | Inr response \<Rightarrow> response)
                @ (if sublist ''quota'' (py_lower (str e)) then quota_note else []), []),
           Suc n'))"
  by (simp add: generate_rag_response_def io_try_def io_bind_def io_return_def
      generate_general_response_eq split: sum.splits prod.splits)

lemma generate_rag_response_total:
  "\<exists>response sources n'.
     generate_rag_response sv st query user_id n = (Inr (response, sources), n')
     \<and> Suc n \<le> n' \<and> n' \<le> n + 2"
proof -
  obtain r n' where r: "rag_body sv st query user_id n = (r, n')"
    by (cases "rag_body sv st query user_id n")
  then have n': "n' = Suc n" using rag_body_calls [of sv st query user_id n] by simp
  show ?thesis
  proof (cases r)
    case (Inl e)
    then show ?thesis using r n' by (simp add: generate_rag_response_cases)
  next
    case (Inr x)
    then show ?thesis using r n' by (cases x) (simp add: generate_rag_response_cases)
  qed
qed

lemma rag_body_no_documents:
  assumes "st (collection_name user_id) = None \<or> st (collection_name user_id) = Some []"
  shows "rag_body sv st query user_id n = general_fallback sv query n"
  using assms
  by (auto simp: rag_body_def io_bind_def io_try_def io_lift_def io_return_def
      get_user_collection_def get_collection_def collection_count_def py_len_def
      general_fallback_eq)

lemma context_loop_prefix:
  "current_length \<le> max_context_length \<Longrightarrow>
   \<exists>k \<le> length chunks.
     context_loop chunks context_parts sources current_length
       = (context_parts @ map content (take k chunks), sources @ map source_of (take k chunks))
     \<and> current_length + sum_list (map (\<lambda>c. py_len (content c)) (take k chunks))
         \<le> max_context_length
     \<and> (k < length chunks \<longrightarrow>
          current_length + sum_list (map (\<lambda>c. py_len (content c)) (take (Suc k) chunks))
            > max_context_length)"
proof (induction chunks arbitrary: context_parts sources current_length)
  case Nil
  then show ?case by simp
next
  case (Cons chunk rest)
  show ?case
  proof (cases "current_length + py_len (content chunk) > max_context_length")
    case True
    then have "context_loop (chunk # rest) context_parts sources current_length
                 = (context_parts, sources)" by simp
    with True Cons.prems show ?thesis by (intro exI [of _ 0]) simp
  next
    case False
    then have le: "current_length + py_len (content chunk) \<le> max_context_length" by simp
    from Cons.IH [OF le, of "context_parts @ [content chunk]" "sources @ [source_of chunk]"]
    obtain k where k: "k \<le> length rest"
      and eq: "context_loop rest (context_parts @ [content chunk]) (sources @ [source_of chunk])
                 (current_length + py_len (content chunk))
               = ((context_parts @ [content chunk]) @ map content (take k rest),
                  (sources @ [source_of chunk]) @ map source_of (take k rest))"
      and bound: "current_length + py_len (content chunk)
                    + sum_list (map (\<lambda>c. py_len (content c)) (take k rest)) \<le> max_context_length"
      and maxi: "k < length rest \<longrightarrow>
          current_length + py_len (content chunk)
            + sum_list (map (\<lambda>c. py_len (content c)) (take (Suc k) rest)) > max_context_length"
      by blast
    show ?thesis
      using False k eq bound maxi
      by (intro exI [of _ "Suc k"]) (simp add: add.assoc)
  qed
qed


lemma stub_search:
  "search_relevant_chunks (stub_services g) (Map.empty(''user_u1'' \<mapsto> collection)) ''u1'' query k
     = Inr (nearest (stub_services g) collection [0] k)"
  by (simp add: search_relevant_chunks_def get_user_collection_def get_collection_def
      collection_name_def generate_embeddings_def collection_query_def stub_services_def)

lemma sublist_mapI: "sublist xs ys \<Longrightarrow> sublist (map f xs) (map f ys)"
proof -
  assume "sublist xs ys"
  then obtain ps ss where "ys = ps @ xs @ ss" by (auto simp: sublist_def)
  then have "map f ys = map f ps @ map f xs @ map f ss" by simp
  then show ?thesis unfolding sublist_def by blast
qed

lemma sublist_transI: "sublist xs ys \<Longrightarrow> sublist ys zs \<Longrightarrow> sublist xs zs"
  by (rule sublist_order.order.trans)

lemma fixed_messages_hide_markers:
  "\<not> sublist ''API key not valid'' msg_api_key"
  "\<not> sublist ''quota'' (py_lower msg_quota)"
  "\<not> sublist ''429'' msg_quota"
  "\<not> sublist ''404'' msg_404"
  "\<not> sublist ''timeout'' (py_lower msg_timeout)"
  by code_simp+

text \<open>
  Claim C1. For every query, user, store and behaviour of the external services,
  \<open>generate_rag_response\<close> returns a pair (response text, source list) and never an
  exception. For a user with no collection, or with an empty one, the result is that of the
  general fallback: the response of \<open>generate_general_response\<close> with an empty source list.
\<close>

theorem generate_rag_response_never_raises:
  "(\<exists>response sources n'.
      generate_rag_response sv st query user_id n = (Inr (response, sources), n'))
   \<and> (st (collection_name user_id) = None \<or> st (collection_name user_id) = Some []
        \<longrightarrow> generate_rag_response sv st query user_id n = general_fallback sv query n
            \<and> (\<exists>response. generate_general_response sv query n = (Inr response, Suc n)
                  \<and> general_fallback sv query n = (Inr (response, []), Suc n)))"
proof -
  have total: "\<exists>response sources n'.
      generate_rag_response sv st query user_id n = (Inr (response, sources), n')"
    using generate_rag_response_total [of sv st query user_id n] by blast
  have fb: "\<exists>response. generate_general_response sv query n = (Inr response, Suc n)
                  \<and> general_fallback sv query n = (Inr (response, []), Suc n)"
    by (simp add: generate_general_response_eq general_fallback_eq)
  have "generate_rag_response sv st query user_id n = general_fallback sv query n"
    if "st (collection_name user_id) = None \<or> st (collection_name user_id) = Some []"
    using rag_body_no_documents [of st user_id sv query n] that
    by (simp add: generate_rag_response_cases general_fallback_eq)
  with total fb show ?thesis by blast
qed

text \<open>
  Witness for C1 (scenario B): user \<open>u2\<close> has never ingested anything.
\<close>

theorem generate_rag_response_never_raises_witness:
  "Map.empty (collection_name ''u2'') = None
   \<and> generate_rag_response (stub_services always_answer) Map.empty
        ''What color is the sky?'' ''u2'' 0
       = (Inr (''Hello'', []), 1)"
proof -
  have h: "(Map.empty :: store) (collection_name ''u2'') = None
           \<or> (Map.empty :: store) (collection_name ''u2'') = Some []"
    by simp
  have "generate_rag_response (stub_services always_answer) Map.empty
          ''What color is the sky?'' ''u2'' 0
        = general_fallback (stub_services always_answer) ''What color is the sky?'' 0"
    using generate_rag_response_never_raises
      [of "stub_services always_answer" Map.empty "''What color is the sky?''" "''u2''" 0] h
    by blast
  then show ?thesis
    by (simp add: general_fallback_eq stub_services_def)
qed

section \<open>Properties of context assembly, generation failures and retrieval\<close>

lemma first_chunk_too_long:
  assumes "st (collection_name user_id) = Some collection" and "collection \<noteq> []"
    and "search_relevant_chunks sv st user_id query default_top_k = Inr (chunk # rest)"
    and "py_len (content chunk) > max_context_length"
  shows "generate_rag_response sv st query user_id n = general_fallback sv query n"
proof -
  have "rag_body sv st query user_id n = general_fallback sv query n"
    using assms
    by (simp add: rag_body_def io_bind_def io_try_def io_lift_def io_return_def
        get_user_collection_def get_collection_def collection_count_def py_len_def)
  then show ?thesis
    by (simp add: generate_rag_response_cases general_fallback_eq)
qed

text \<open>
  Claim C5, as stated, fails: when the generation service fails twice with a quota error and
  would answer on the third attempt, \<open>generate_general_response\<close> makes one attempt and
  returns the quota message, not the answer.
\<close>

theorem no_retry_counterexample:
  "generate_content (stub_services quota_twice) 0 ''hi'' = Inl (ServiceError ''429 quota exceeded'')
   \<and> generate_content (stub_services quota_twice) 1 ''hi'' = Inl (ServiceError ''429 quota exceeded'')
   \<and> generate_content (stub_services quota_twice) 2 ''hi'' = Inr ''answer''
   \<and> generate_general_response (stub_services quota_twice) ''hi'' 0 = (Inr msg_quota, 1)
   \<and> msg_quota \<noteq> ''answer''"
proof -
  have "general_error_message ''429 quota exceeded'' = msg_quota"
    by code_simp
  then have "generate_general_response (stub_services quota_twice) ''hi'' 0 = (Inr msg_quota, 1)"
    by (simp add: generate_general_response_eq stub_services_def)
  moreover have "msg_quota \<noteq> ''answer''"
    by (simp add: msg_quota_def)
  ultimately show ?thesis by (simp add: stub_services_def)
qed

text \<open>
  Claim C5, amended. \<open>generate_general_response\<close> makes exactly one generation attempt
  and never raises: if that attempt succeeds its text is the response; if it fails with a
  quota marker (and no invalid-key marker) the response is the fixed try-again message.
  There is no retry. \<open>generate_rag_response\<close> makes at most two generation attempts
  (the grounded one and the fallback), so never more than three.
\<close>

theorem generate_general_response_single_attempt:
  "(\<exists>response. generate_general_response sv query n = (Inr response, Suc n))
   \<and> (\<forall>response. generate_content sv n query = Inr response
          \<longrightarrow> generate_general_response sv query n = (Inr response, Suc n))
   \<and> (\<forall>e. generate_content sv n query = Inl e \<and> is_quota_error e
             \<and> \<not> sublist ''API key not valid'' (str e)
          \<longrightarrow> generate_general_response sv query n = (Inr msg_quota, Suc n))
   \<and> (\<exists>response sources n'.
         generate_rag_response sv st query user_id n = (Inr (response, sources), n')
         \<and> n' \<le> n + 2)"
proof -
  have "\<exists>response sources n'.
         generate_rag_response sv st query user_id n = (Inr (response, sources), n')
         \<and> n' \<le> n + 2"
    using generate_rag_response_total [of sv st query user_id n] by blast
  then show ?thesis
    by (simp add: generate_general_response_eq general_error_message_def is_quota_error_def)
qed

text \<open>
  Witness for C5 (amended): the service of scenario C, at its third call (an answer) and at
  its first (a quota failure).
\<close>

theorem generate_general_response_single_attempt_witness:
  "generate_content (stub_services quota_twice) 2 ''hi'' = Inr ''answer''
   \<and> generate_general_response (stub_services quota_twice) ''hi'' 2 = (Inr ''answer'', 3)
   \<and> generate_content (stub_services quota_twice) 0 ''hi''
       = Inl (ServiceError ''429 quota exceeded'')
   \<and> is_quota_error (ServiceError ''429 quota exceeded'')
   \<and> generate_general_response (stub_services quota_twice) ''hi'' 0 = (Inr msg_quota, 1)"
proof -
  have h: "generate_content (stub_services quota_twice) 2 ''hi'' = Inr ''answer''"
    by (simp add: stub_services_def)
  from generate_general_response_single_attempt
         [of "stub_services quota_twice" "''hi''" 2 Map.empty "''u''"] h
  have r: "generate_general_response (stub_services quota_twice) ''hi'' 2 = (Inr ''answer'', 3)"
    by simp
  have g: "generate_content (stub_services quota_twice) 0 ''hi''
             = Inl (ServiceError ''429 quota exceeded'')"
    by (simp add: stub_services_def)
  have q: "is_quota_error (ServiceError ''429 quota exceeded'')"
    by code_simp
  have k: "\<not> sublist ''API key not valid'' (str (ServiceError ''429 quota exceeded''))"
    by code_simp
  from generate_general_response_single_attempt
         [of "stub_services quota_twice" "''hi''" 0 Map.empty "''u''"]
  have "\<forall>e. generate_content (stub_services quota_twice) 0 ''hi'' = Inl e \<and> is_quota_error e
             \<and> \<not> sublist ''API key not valid'' (str e)
          \<longrightarrow> generate_general_response (stub_services quota_twice) ''hi'' 0
                = (Inr msg_quota, Suc 0)"
    by (rule conjunct2 [THEN conjunct2, THEN conjunct1])
  with g q k
  have m: "generate_general_response (stub_services quota_twice) ''hi'' 0 = (Inr msg_quota, 1)"
    by (simp only: One_nat_def)
  from h r g q m show ?thesis by (intro conjI)
qed

text \<open>
  Claim C8, as stated, fails: for an error of no known class the returned message embeds the
  raw error text.
\<close>

theorem raw_error_text_counterexample:
  "generate_content (stub_services always_boom) 0 ''hi'' = Inl (ServiceError ''boom'')
   \<and> generate_general_response (stub_services always_boom) ''hi'' 0
       = (Inr ''I encountered an error: boom... Please try again.'', 1)
   \<and> sublist ''boom'' ''I encountered an error: boom... Please try again.''"
proof -
  have "general_error_message ''boom'' = ''I encountered an error: boom... Please try again.''"
    by code_simp
  then have "generate_general_response (stub_services always_boom) ''hi'' 0
       = (Inr ''I encountered an error: boom... Please try again.'', 1)"
    by (simp add: generate_general_response_eq stub_services_def)
  moreover have "sublist ''boom'' ''I encountered an error: boom... Please try again.''"
    by code_simp
  ultimately show ?thesis by (simp add: stub_services_def)
qed

lemma hide_marker: "sublist m s \<Longrightarrow> \<not> sublist m msg \<Longrightarrow> \<not> sublist s msg"
  using sublist_transI by blast

lemma hide_marker_lower:
  "sublist m (py_lower s) \<Longrightarrow> \<not> sublist m (py_lower msg) \<Longrightarrow> \<not> sublist s msg"
  unfolding py_lower_def using sublist_mapI sublist_transI by blast

lemma classified_message:
  assumes "sublist ''API key not valid'' s \<or> sublist ''quota'' (py_lower s) \<or> sublist ''429'' s
        \<or> sublist ''404'' s \<or> sublist ''timeout'' (py_lower s)"
  shows "general_error_message s \<in> {msg_api_key, msg_quota, msg_404, msg_timeout}
           \<and> \<not> sublist s (general_error_message s)"
proof (cases "sublist ''API key not valid'' s")
  case True
  then have "general_error_message s = msg_api_key"
    by (simp only: general_error_message_def if_True)
  moreover have "\<not> sublist s msg_api_key"
    by (rule hide_marker [OF True fixed_messages_hide_markers(1)])
  ultimately show ?thesis by simp
next
  case k: False
  show ?thesis
  proof (cases "sublist ''quota'' (py_lower s)")
    case True
    then have "general_error_message s = msg_quota"
      using k by (simp only: general_error_message_def if_True if_False simp_thms)
    moreover have "\<not> sublist s msg_quota"
      by (rule hide_marker_lower [OF True fixed_messages_hide_markers(2)])
    ultimately show ?thesis by simp
  next
    case q: False
    show ?thesis
    proof (cases "sublist ''429'' s")
      case True
      then have "general_error_message s = msg_quota"
        using k q by (simp only: general_error_message_def if_True if_False simp_thms)
      moreover have "\<not> sublist s msg_quota"
        by (rule hide_marker [OF True fixed_messages_hide_markers(3)])
      ultimately show ?thesis by simp
    next
      case r: False
      show ?thesis
      proof (cases "sublist ''404'' s")
        case True
        then have "general_error_message s = msg_404"
          using k q r by (simp only: general_error_message_def if_True if_False simp_thms)
        moreover have "\<not> sublist s msg_404"
          by (rule hide_marker [OF True fixed_messages_hide_markers(4)])
        ultimately show ?thesis by simp
      next
        case f: False
        with assms k q r have t: "sublist ''timeout'' (py_lower s)"
          by (simp only: simp_thms)
        then have "general_error_message s = msg_timeout"
          using k q r f by (simp only: general_error_message_def if_True if_False simp_thms)
        moreover have "\<not> sublist s msg_timeout"
          by (rule hide_marker_lower [OF t fixed_messages_hide_markers(5)])
        ultimately show ?thesis by simp
      qed
    qed
  qed
qed

lemma unclassified_message:
  assumes "\<not> (sublist ''API key not valid'' s \<or> sublist ''quota'' (py_lower s) \<or> sublist ''429'' s
           \<or> sublist ''404'' s \<or> sublist ''timeout'' (py_lower s))"
  shows "general_error_message s = ''I encountered an error: '' @ take 100 s @ ''... Please try again.''"
proof -
  from assms have "\<not> sublist ''API key not valid'' s" "\<not> sublist ''quota'' (py_lower s)"
    "\<not> sublist ''429'' s" "\<not> sublist ''404'' s" "\<not> sublist ''timeout'' (py_lower s)"
    by (simp_all only: de_Morgan_disj simp_thms)
  then have "general_error_message s = msg_other s"
    by (simp only: general_error_message_def if_False simp_thms)
  then show ?thesis by (simp only: msg_other_def)
qed

lemma failed_generation_message:
  "generate_content sv n query = Inl e \<Longrightarrow>
     generate_general_response sv query n = (Inr (general_error_message (str e)), Suc n)"
  by (simp add: generate_general_response_eq)

lemma length_nearest: "length (nearest sv collection q k) \<le> k"
  by (simp add: nearest_def)

lemma search_relevant_chunks_shape:
  "\<exists>hits. search_relevant_chunks sv st user_id query top_k = Inr hits
     \<and> (hits = [] \<or> (\<exists>collection q. st (collection_name user_id) = Some collection
                          \<and> hits = nearest sv collection q top_k))"
proof (cases "st (collection_name user_id)")
  case None
  then show ?thesis
    by (simp add: search_relevant_chunks_def get_user_collection_def get_collection_def)
next
  case (Some collection)
  show ?thesis
  proof (cases "generate_embeddings sv [query]")
    case (Inl e)
    with Some show ?thesis
      by (simp add: search_relevant_chunks_def get_user_collection_def get_collection_def)
  next
    case (Inr qs)
    show ?thesis
    proof (cases "query_fault sv")
      case (Some e)
      with \<open>st (collection_name user_id) = Some collection\<close> Inr show ?thesis
        by (simp add: search_relevant_chunks_def get_user_collection_def get_collection_def
            collection_query_def)
    next
      case None
      with \<open>st (collection_name user_id) = Some collection\<close> Inr show ?thesis
        by (cases qs)
          (auto simp: search_relevant_chunks_def get_user_collection_def get_collection_def
            collection_query_def)
    qed
  qed
qed

text \<open>
  Claim C9, as stated, fails: called without an explicit \<open>top_k\<close> on a collection of
  six chunks, the retriever returns the five nearest, more than three.
\<close>

theorem default_top_k_counterexample:
  "search_relevant_chunks (stub_services always_answer)
     (Map.empty(''user_u1'' \<mapsto>
        [stub_entry ''d'' ''0'' 0 ''zero'', stub_entry ''d'' ''1'' 1 ''one'',
         stub_entry ''d'' ''2'' 2 ''two'', stub_entry ''d'' ''3'' 3 ''three'',
         stub_entry ''d'' ''4'' 4 ''four'', stub_entry ''d'' ''5'' 5 ''five'']))
     ''u1'' ''q'' default_top_k
   = Inr [stub_hit ''d'' ''0'' 0 ''zero'', stub_hit ''d'' ''1'' 1 ''one'',
          stub_hit ''d'' ''2'' 2 ''two'', stub_hit ''d'' ''3'' 3 ''three'',
          stub_hit ''d'' ''4'' 4 ''four'']
   \<and> \<not> length [stub_hit ''d'' ''0'' 0 ''zero'', stub_hit ''d'' ''1'' 1 ''one'',
          stub_hit ''d'' ''2'' 2 ''two'', stub_hit ''d'' ''3'' 3 ''three'',
          stub_hit ''d'' ''4'' 4 ''four''] \<le> 3"
proof -
  have "nearest (stub_services always_answer)
          [stub_entry ''d'' ''0'' 0 ''zero'', stub_entry ''d'' ''1'' 1 ''one'',
           stub_entry ''d'' ''2'' 2 ''two'', stub_entry ''d'' ''3'' 3 ''three'',
           stub_entry ''d'' ''4'' 4 ''four'', stub_entry ''d'' ''5'' 5 ''five''] [0] default_top_k
        = [stub_hit ''d'' ''0'' 0 ''zero'', stub_hit ''d'' ''1'' 1 ''one'',
           stub_hit ''d'' ''2'' 2 ''two'', stub_hit ''d'' ''3'' 3 ''three'',
           stub_hit ''d'' ''4'' 4 ''four'']"
    by (simp add: nearest_def stub_services_def stub_hit_def stub_entry_def default_top_k_def)
  then have "search_relevant_chunks (stub_services always_answer)
     (Map.empty(''user_u1'' \<mapsto>
        [stub_entry ''d'' ''0'' 0 ''zero'', stub_entry ''d'' ''1'' 1 ''one'',
         stub_entry ''d'' ''2'' 2 ''two'', stub_entry ''d'' ''3'' 3 ''three'',
         stub_entry ''d'' ''4'' 4 ''four'', stub_entry ''d'' ''5'' 5 ''five'']))
     ''u1'' ''q'' default_top_k
   = Inr [stub_hit ''d'' ''0'' 0 ''zero'', stub_hit ''d'' ''1'' 1 ''one'',
          stub_hit ''d'' ''2'' 2 ''two'', stub_hit ''d'' ''3'' 3 ''three'',
          stub_hit ''d'' ''4'' 4 ''four'']"
    by (simp only: stub_search)
  then show ?thesis by simp
qed

section \<open>The grounded path, the classified messages and the retriever\<close>

lemma rag_body_grounded:
  assumes "st (collection_name user_id) = Some collection" and "collection \<noteq> []"
    and "search_relevant_chunks sv st user_id query default_top_k = Inr chunks"
    and "context_loop chunks [] [] 0 = (context_parts, sources)"
    and "context_parts \<noteq> []"
  shows "rag_body sv st query user_id n =
     (case generate_content sv n (rag_prompt (py_join (newline @ newline) context_parts) query) of
        Inl e \<Rightarrow> (Inl e, Suc n)
      | Inr response \<Rightarrow> (Inr (response, sources), Suc n))"
proof -
  from assms(4,5) have ne: "chunks \<noteq> []" by auto
  show ?thesis
    using assms ne
    by (simp add: rag_body_def io_bind_def io_try_def io_lift_def io_return_def
        get_user_collection_def get_collection_def collection_count_def py_len_def
        call_generate_def split: sum.splits)
qed

lemma grounded_success:
  assumes "st (collection_name user_id) = Some collection" and "collection \<noteq> []"
    and "search_relevant_chunks sv st user_id query default_top_k = Inr chunks"
    and "context_loop chunks [] [] 0 = (context_parts, sources)"
    and "context_parts \<noteq> []"
    and "generate_content sv n (rag_prompt (py_join (newline @ newline) context_parts) query)
           = Inr response"
  shows "generate_rag_response sv st query user_id n = (Inr (response, sources), Suc n)"
  using rag_body_grounded [OF assms(1-5), of n] assms(6)
  by (simp add: generate_rag_response_cases)

lemma grounded_failure:
  assumes "st (collection_name user_id) = Some collection" and "collection \<noteq> []"
    and "search_relevant_chunks sv st user_id query default_top_k = Inr chunks"
    and "context_loop chunks [] [] 0 = (context_parts, sources)"
    and "context_parts \<noteq> []"
    and "generate_content sv n (rag_prompt (py_join (newline @ newline) context_parts) query)
           = Inl e"
  shows "\<exists>response. generate_rag_response sv st query user_id n
           = (Inr (response, []), Suc (Suc n))"
  using rag_body_grounded [OF assms(1-5), of n] assms(6)
  by (simp add: generate_rag_response_cases)

lemma source_of_record:
  "map source_of cs =
     map (\<lambda>c. \<lparr>ref_source = source (metadata c), ref_content_type = content_type (metadata c),
               relevance_score = 1 - distance c\<rparr>) cs"
  by (simp add: source_of_def)

text \<open>
  Claim C4. For every ranked result list the context loop includes a prefix of the results:
  the context parts are the texts of the first \<open>k\<close> chunks and the sources are their
  source entries (source, content type, \<open>1 - distance\<close>), one per included chunk and in
  rank order; the included texts together are at most \<open>max_context_length\<close> long; the
  prefix is greedy (the next chunk, if any, would exceed the budget). When the first
  retrieved chunk alone exceeds the budget, nothing is included and
  \<open>generate_rag_response\<close> answers with the general fallback. When the loop includes
  something, \<open>generate_rag_response\<close> prompts the generation with exactly the included
  parts, and returns the generated text with exactly the loop's source list; if that
  generation fails it returns a fallback response with an empty source list.
\<close>

theorem context_assembly_greedy_prefix:
  "(\<exists>k \<le> length chunks.
      context_loop chunks [] [] 0
        = (map content (take k chunks),
           map (\<lambda>c. \<lparr>ref_source = source (metadata c),
                     ref_content_type = content_type (metadata c),
                     relevance_score = 1 - distance c\<rparr>) (take k chunks))
      \<and> sum_list (map (\<lambda>c. py_len (content c)) (take k chunks)) \<le> max_context_length
      \<and> (k < length chunks \<longrightarrow>
            sum_list (map (\<lambda>c. py_len (content c)) (take (Suc k) chunks)) > max_context_length))
   \<and> (st (collection_name user_id) = Some collection \<and> collection \<noteq> []
        \<and> search_relevant_chunks sv st user_id query default_top_k = Inr (chunk # rest)
        \<and> py_len (content chunk) > max_context_length
       \<longrightarrow> context_loop (chunk # rest) [] [] 0 = ([], [])
           \<and> generate_rag_response sv st query user_id n = general_fallback sv query n)
   \<and> (st (collection_name user_id) = Some collection \<and> collection \<noteq> []
        \<and> search_relevant_chunks sv st user_id query default_top_k = Inr chunks
        \<and> context_loop chunks [] [] 0 = (context_parts, sources)
        \<and> context_parts \<noteq> []
       \<longrightarrow> (\<forall>response.
              generate_content sv n (rag_prompt (py_join (newline @ newline) context_parts) query)
                = Inr response
              \<longrightarrow> generate_rag_response sv st query user_id n
                    = (Inr (response, sources), Suc n))
           \<and> (\<forall>e.
              generate_content sv n (rag_prompt (py_join (newline @ newline) context_parts) query)
                = Inl e
              \<longrightarrow> (\<exists>response. generate_rag_response sv st query user_id n
                                = (Inr (response, []), Suc (Suc n)))))"
proof -
  have "(0::int) \<le> max_context_length" by (simp add: max_context_length_def)
  from context_loop_prefix [OF this, of chunks "[]" "[]"]
  have a: "\<exists>k \<le> length chunks.
      context_loop chunks [] [] 0
        = (map content (take k chunks),
           map (\<lambda>c. \<lparr>ref_source = source (metadata c),
                     ref_content_type = content_type (metadata c),
                     relevance_score = 1 - distance c\<rparr>) (take k chunks))
      \<and> sum_list (map (\<lambda>c. py_len (content c)) (take k chunks)) \<le> max_context_length
      \<and> (k < length chunks \<longrightarrow>
            sum_list (map (\<lambda>c. py_len (content c)) (take (Suc k) chunks)) > max_context_length)"
    by (simp add: source_of_record)
  have b: "context_loop (chunk # rest) [] [] 0 = ([], [])"
    if "py_len (content chunk) > max_context_length"
    using that by simp
  note c = first_chunk_too_long [of st user_id collection sv query chunk rest n]
  note d = grounded_success [of st user_id collection sv query chunks context_parts sources n]
  note e = grounded_failure [of st user_id collection sv query chunks context_parts sources n]
  from a b c d e show ?thesis by blast
qed

text \<open>
  Witness for C4: a short chunk followed by one of 2001 characters includes the short one
  only; a collection whose nearest chunk has 2001 characters yields the general response; a
  collection whose nearest chunk is short and whose second is too long yields the generated
  answer with the source entry of the first chunk alone.
\<close>

theorem context_assembly_greedy_prefix_witness:
  "context_loop
     [stub_hit ''d'' ''0'' 0 ''The sky is blue.'', stub_hit ''d'' ''1'' 1 (replicate 2001 CHR ''x'')]
     [] [] 0
     = ([''The sky is blue.''], [source_of (stub_hit ''d'' ''0'' 0 ''The sky is blue.'')])
   \<and> (Map.empty(''user_u1'' \<mapsto>
         [stub_entry ''d'' ''0'' 0 (replicate 2001 CHR ''x''), stub_entry ''d'' ''1'' 1 ''one'',
          stub_entry ''d'' ''2'' 2 ''two'', stub_entry ''d'' ''3'' 3 ''three'',
          stub_entry ''d'' ''4'' 4 ''four'']))
        (collection_name ''u1'')
       = Some
         [stub_entry ''d'' ''0'' 0 (replicate 2001 CHR ''x''), stub_entry ''d'' ''1'' 1 ''one'',
          stub_entry ''d'' ''2'' 2 ''two'', stub_entry ''d'' ''3'' 3 ''three'',
          stub_entry ''d'' ''4'' 4 ''four'']
   \<and> search_relevant_chunks (stub_services always_answer)
        (Map.empty(''user_u1'' \<mapsto>
         [stub_entry ''d'' ''0'' 0 (replicate 2001 CHR ''x''), stub_entry ''d'' ''1'' 1 ''one'',
          stub_entry ''d'' ''2'' 2 ''two'', stub_entry ''d'' ''3'' 3 ''three'',
          stub_entry ''d'' ''4'' 4 ''four'']))
        ''u1'' ''q'' default_top_k
       = Inr
         [stub_hit ''d'' ''0'' 0 (replicate 2001 CHR ''x''), stub_hit ''d'' ''1'' 1 ''one'',
          stub_hit ''d'' ''2'' 2 ''two'', stub_hit ''d'' ''3'' 3 ''three'',
          stub_hit ''d'' ''4'' 4 ''four'']
   \<and> py_len (content (stub_hit ''d'' ''0'' 0 (replicate 2001 CHR ''x''))) > max_context_length
   \<and> generate_rag_response (stub_services always_answer)
        (Map.empty(''user_u1'' \<mapsto>
         [stub_entry ''d'' ''0'' 0 (replicate 2001 CHR ''x''), stub_entry ''d'' ''1'' 1 ''one'',
          stub_entry ''d'' ''2'' 2 ''two'', stub_entry ''d'' ''3'' 3 ''three'',
          stub_entry ''d'' ''4'' 4 ''four'']))
        ''q'' ''u1'' 0
       = (Inr (''Hello'', []), 1)
   \<and> search_relevant_chunks (stub_services always_answer)
        (Map.empty(''user_u1'' \<mapsto>
         [stub_entry ''d'' ''0'' 0 ''The sky is blue.'',
          stub_entry ''d'' ''1'' 1 (replicate 2001 CHR ''x''),
          stub_entry ''d'' ''2'' 2 ''two'', stub_entry ''d'' ''3'' 3 ''three'',
          stub_entry ''d'' ''4'' 4 ''four'']))
        ''u1'' ''q'' default_top_k
       = Inr
         [stub_hit ''d'' ''0'' 0 ''The sky is blue.'',
          stub_hit ''d'' ''1'' 1 (replicate 2001 CHR ''x''),
          stub_hit ''d'' ''2'' 2 ''two'', stub_hit ''d'' ''3'' 3 ''three'',
          stub_hit ''d'' ''4'' 4 ''four'']
   \<and> context_loop
         [stub_hit ''d'' ''0'' 0 ''The sky is blue.'',
          stub_hit ''d'' ''1'' 1 (replicate 2001 CHR ''x''),
          stub_hit ''d'' ''2'' 2 ''two'', stub_hit ''d'' ''3'' 3 ''three'',
          stub_hit ''d'' ''4'' 4 ''four''] [] [] 0
       = ([''The sky is blue.''],
          [\<lparr>ref_source = ''notes.txt'', ref_content_type = ''text'', relevance_score = 1\<rparr>])
   \<and> generate_rag_response (stub_services always_answer)
        (Map.empty(''user_u1'' \<mapsto>
         [stub_entry ''d'' ''0'' 0 ''The sky is blue.'',
          stub_entry ''d'' ''1'' 1 (replicate 2001 CHR ''x''),
          stub_entry ''d'' ''2'' 2 ''two'', stub_entry ''d'' ''3'' 3 ''three'',
          stub_entry ''d'' ''4'' 4 ''four'']))
        ''q'' ''u1'' 0
       = (Inr (''Hello'',
               [\<lparr>ref_source = ''notes.txt'', ref_content_type = ''text'',
                 relevance_score = 1\<rparr>]), 1)"
proof -
  let ?gs = "[stub_entry ''d'' ''0'' 0 ''The sky is blue.'',
          stub_entry ''d'' ''1'' 1 (replicate 2001 CHR ''x''),
          stub_entry ''d'' ''2'' 2 ''two'', stub_entry ''d'' ''3'' 3 ''three'',
          stub_entry ''d'' ''4'' 4 ''four'']"
  let ?gh = "[stub_hit ''d'' ''0'' 0 ''The sky is blue.'',
          stub_hit ''d'' ''1'' 1 (replicate 2001 CHR ''x''),
          stub_hit ''d'' ''2'' 2 ''two'', stub_hit ''d'' ''3'' 3 ''three'',
          stub_hit ''d'' ''4'' 4 ''four'']"
  let ?gst = "Map.empty(''user_u1'' \<mapsto> ?gs)"
  let ?src = "[\<lparr>ref_source = ''notes.txt'', ref_content_type = ''text'',
                relevance_score = (1::real)\<rparr>]"
  let ?small = "stub_hit ''d'' ''0'' 0 ''The sky is blue.''"
  let ?big = "stub_hit ''d'' ''1'' 1 (replicate 2001 CHR ''x'')"
  let ?es = "[stub_entry ''d'' ''0'' 0 (replicate 2001 CHR ''x''), stub_entry ''d'' ''1'' 1 ''one'',
          stub_entry ''d'' ''2'' 2 ''two'', stub_entry ''d'' ''3'' 3 ''three'',
          stub_entry ''d'' ''4'' 4 ''four'']"
  let ?h = "stub_hit ''d'' ''0'' 0 (replicate 2001 CHR ''x'')"
  let ?hs = "[stub_hit ''d'' ''1'' 1 ''one'', stub_hit ''d'' ''2'' 2 ''two'',
          stub_hit ''d'' ''3'' 3 ''three'', stub_hit ''d'' ''4'' 4 ''four'']"
  let ?st = "Map.empty(''user_u1'' \<mapsto> ?es)"
  let ?sv = "stub_services always_answer"
  note inst = context_assembly_greedy_prefix
    [of "[?small, ?big]" ?st "''u1''" ?es ?sv "''q''" ?h ?hs 0 "[]" "[]"]
  note inst1 = inst [THEN conjunct1]
  note inst2 = inst [THEN conjunct2, THEN conjunct1]
  have ls: "py_len (content ?small) = 16" and lb: "py_len (content ?big) = 2001"
    by (simp_all add: stub_hit_def py_len_def)
  from inst1 obtain k where k: "k \<le> length [?small, ?big]"
    and eq: "context_loop [?small, ?big] [] [] 0
               = (map content (take k [?small, ?big]),
                  map (\<lambda>c. \<lparr>ref_source = source (metadata c),
                            ref_content_type = content_type (metadata c),
                            relevance_score = 1 - distance c\<rparr>) (take k [?small, ?big]))"
    and bound: "sum_list (map (\<lambda>c. py_len (content c)) (take k [?small, ?big])) \<le> max_context_length"
    and maxi: "k < length [?small, ?big] \<longrightarrow>
            sum_list (map (\<lambda>c. py_len (content c)) (take (Suc k) [?small, ?big])) > max_context_length"
    by (elim exE conjE) (rule that)
  from k have "k = 0 \<or> k = 1 \<or> k = 2" by auto
  then have k1: "k = 1"
    using bound maxi ls lb by (auto simp: max_context_length_def)
  have first: "context_loop [?small, ?big] [] [] 0 = ([''The sky is blue.''], [source_of ?small])"
    using eq unfolding k1 by (simp add: stub_hit_def source_of_def)
  have h1: "?st (collection_name ''u1'') = Some ?es"
    by (simp add: collection_name_def)
  have "nearest ?sv ?es [0] default_top_k = ?h # ?hs"
    by (simp add: nearest_def stub_services_def stub_hit_def stub_entry_def default_top_k_def)
  then have h2: "search_relevant_chunks ?sv ?st ''u1'' ''q'' default_top_k = Inr (?h # ?hs)"
    by (simp only: stub_search)
  have h3: "py_len (content ?h) > max_context_length"
    by (simp add: stub_hit_def py_len_def max_context_length_def)
  have h0: "?es \<noteq> []" by simp
  from h1 h0 h2 h3
  have "?st (collection_name ''u1'') = Some ?es \<and> ?es \<noteq> []
        \<and> search_relevant_chunks ?sv ?st ''u1'' ''q'' default_top_k = Inr (?h # ?hs)
        \<and> py_len (content ?h) > max_context_length"
    by (intro conjI)
  with inst2
  have "context_loop (?h # ?hs) [] [] 0 = ([], [])
           \<and> generate_rag_response ?sv ?st ''q'' ''u1'' 0 = general_fallback ?sv ''q'' 0"
    by (rule mp)
  then have "generate_rag_response ?sv ?st ''q'' ''u1'' 0 = general_fallback ?sv ''q'' 0"
    by (rule conjunct2)
  then have last: "generate_rag_response ?sv ?st ''q'' ''u1'' 0 = (Inr (''Hello'', []), 1)"
    by (simp add: general_fallback_eq stub_services_def)
  have g1: "?gst (collection_name ''u1'') = Some ?gs"
    by (simp add: collection_name_def)
  have g0: "?gs \<noteq> []" by simp
  have "nearest ?sv ?gs [0] default_top_k = ?gh"
    by (simp add: nearest_def stub_services_def stub_hit_def stub_entry_def default_top_k_def)
  then have g2: "search_relevant_chunks ?sv ?gst ''u1'' ''q'' default_top_k = Inr ?gh"
    by (simp only: stub_search)
  have g3: "context_loop ?gh [] [] 0 = ([''The sky is blue.''], ?src)"
    by (simp add: stub_hit_def stub_entry_def source_of_def py_len_def max_context_length_def)
  have g4: "[''The sky is blue.''] \<noteq> []" by simp
  have g5: "generate_content ?sv 0
              (rag_prompt (py_join (newline @ newline) [''The sky is blue.'']) ''q'') = Inr ''Hello''"
    by (simp add: stub_services_def)
  note ginst = context_assembly_greedy_prefix
    [of ?gh ?gst "''u1''" ?gs ?sv "''q''" ?h ?hs 0 "[''The sky is blue.'']" ?src,
     THEN conjunct2, THEN conjunct2]
  from g1 g0 g2 g3 g4
  have "?gst (collection_name ''u1'') = Some ?gs \<and> ?gs \<noteq> []
        \<and> search_relevant_chunks ?sv ?gst ''u1'' ''q'' default_top_k = Inr ?gh
        \<and> context_loop ?gh [] [] 0 = ([''The sky is blue.''], ?src)
        \<and> [''The sky is blue.''] \<noteq> []"
    by (intro conjI)
  with ginst
  have "(\<forall>response.
              generate_content ?sv 0
                (rag_prompt (py_join (newline @ newline) [''The sky is blue.'']) ''q'')
                = Inr response
              \<longrightarrow> generate_rag_response ?sv ?gst ''q'' ''u1'' 0
                    = (Inr (response, ?src), Suc 0))
           \<and> (\<forall>e.
              generate_content ?sv 0
                (rag_prompt (py_join (newline @ newline) [''The sky is blue.'']) ''q'')
                = Inl e
              \<longrightarrow> (\<exists>response. generate_rag_response ?sv ?gst ''q'' ''u1'' 0
                                = (Inr (response, []), Suc (Suc 0))))"
    by (rule mp)
  then have "generate_content ?sv 0
                (rag_prompt (py_join (newline @ newline) [''The sky is blue.'']) ''q'')
                = Inr ''Hello''
              \<longrightarrow> generate_rag_response ?sv ?gst ''q'' ''u1'' 0
                    = (Inr (''Hello'', ?src), Suc 0)"
    by (rule conjunct1 [THEN spec])
  from this g5
  have g6: "generate_rag_response ?sv ?gst ''q'' ''u1'' 0 = (Inr (''Hello'', ?src), Suc 0)"
    by (rule mp)
  then have g7: "generate_rag_response ?sv ?gst ''q'' ''u1'' 0 = (Inr (''Hello'', ?src), 1)"
    by simp
  from first h1 h2 h3 last g2 g3 g7 show ?thesis by (intro conjI)
qed

lemma api_key_message:
  "sublist ''API key not valid'' s \<Longrightarrow> general_error_message s = msg_api_key"
  by (simp only: general_error_message_def if_True)

lemma quota_message:
  assumes "\<not> sublist ''API key not valid'' s"
    and "sublist ''quota'' (py_lower s) \<or> sublist ''429'' s"
  shows "general_error_message s = msg_quota"
  using assms by (simp only: general_error_message_def if_True if_False)

lemma not_found_message:
  assumes "\<not> sublist ''API key not valid'' s" and "\<not> sublist ''quota'' (py_lower s)"
    and "\<not> sublist ''429'' s" and "sublist ''404'' s"
  shows "general_error_message s = msg_404"
  using assms by (simp only: general_error_message_def if_True if_False simp_thms)

lemma timeout_message:
  assumes "\<not> sublist ''API key not valid'' s" and "\<not> sublist ''quota'' (py_lower s)"
    and "\<not> sublist ''429'' s" and "\<not> sublist ''404'' s"
    and "sublist ''timeout'' (py_lower s)"
  shows "general_error_message s = msg_timeout"
  using assms by (simp only: general_error_message_def if_True if_False simp_thms)

text \<open>
  Claim C8, amended. When the generation call fails, the response is the classified message
  of the error text, chosen by the first marker found in it: invalid API key, then quota or
  429, then 404, then timeout, each with its own fixed message. A message chosen by a marker
  does not contain the error text. An error text with none of the markers gets the fixed
  frame around its first 100 characters.
\<close>

theorem general_error_message_classified:
  "(generate_content sv n query = Inl e
      \<longrightarrow> generate_general_response sv query n = (Inr (general_error_message (str e)), Suc n))
   \<and> (sublist ''API key not valid'' s
       \<longrightarrow> general_error_message s =
             ''I'm sorry, but there's an issue with the AI service configuration. Please check the API key.'')
   \<and> (\<not> sublist ''API key not valid'' s
        \<and> (sublist ''quota'' (py_lower s) \<or> sublist ''429'' s)
       \<longrightarrow> general_error_message s =
             ''I'm having trouble processing your request right now. Please try again shortly.'')
   \<and> (\<not> sublist ''API key not valid'' s \<and> \<not> sublist ''quota'' (py_lower s)
        \<and> \<not> sublist ''429'' s \<and> sublist ''404'' s
       \<longrightarrow> general_error_message s =
             ''I'm experiencing a temporary service issue. Please try again in a few moments.'')
   \<and> (\<not> sublist ''API key not valid'' s \<and> \<not> sublist ''quota'' (py_lower s)
        \<and> \<not> sublist ''429'' s \<and> \<not> sublist ''404'' s \<and> sublist ''timeout'' (py_lower s)
       \<longrightarrow> general_error_message s =
             ''The request timed out. Please try again with a shorter query.'')
   \<and> (sublist ''API key not valid'' s \<or> sublist ''quota'' (py_lower s) \<or> sublist ''429'' s
        \<or> sublist ''404'' s \<or> sublist ''timeout'' (py_lower s)
       \<longrightarrow> \<not> sublist s (general_error_message s))
   \<and> (\<not> (sublist ''API key not valid'' s \<or> sublist ''quota'' (py_lower s) \<or> sublist ''429'' s
           \<or> sublist ''404'' s \<or> sublist ''timeout'' (py_lower s))
       \<longrightarrow> general_error_message s
             = ''I encountered an error: '' @ take 100 s @ ''... Please try again.'')"
proof -
  have c1: "generate_content sv n query = Inl e
      \<longrightarrow> generate_general_response sv query n = (Inr (general_error_message (str e)), Suc n)"
    by (rule impI) (rule failed_generation_message)
  have c2: "sublist ''API key not valid'' s
       \<longrightarrow> general_error_message s =
             ''I'm sorry, but there's an issue with the AI service configuration. Please check the API key.''"
  proof (rule impI)
    assume "sublist ''API key not valid'' s"
    then have "general_error_message s = msg_api_key" by (rule api_key_message)
    then show "general_error_message s =
             ''I'm sorry, but there's an issue with the AI service configuration. Please check the API key.''"
      by (simp only: msg_api_key_def)
  qed
  have c3: "\<not> sublist ''API key not valid'' s
        \<and> (sublist ''quota'' (py_lower s) \<or> sublist ''429'' s)
       \<longrightarrow> general_error_message s =
             ''I'm having trouble processing your request right now. Please try again shortly.''"
  proof (rule impI)
    assume h: "\<not> sublist ''API key not valid'' s
        \<and> (sublist ''quota'' (py_lower s) \<or> sublist ''429'' s)"
    have "general_error_message s = msg_quota"
      by (rule quota_message [OF h [THEN conjunct1] h [THEN conjunct2]])
    then show "general_error_message s =
             ''I'm having trouble processing your request right now. Please try again shortly.''"
      by (simp only: msg_quota_def)
  qed
  have c4: "\<not> sublist ''API key not valid'' s \<and> \<not> sublist ''quota'' (py_lower s)
        \<and> \<not> sublist ''429'' s \<and> sublist ''404'' s
       \<longrightarrow> general_error_message s =
             ''I'm experiencing a temporary service issue. Please try again in a few moments.''"
  proof (rule impI)
    assume h: "\<not> sublist ''API key not valid'' s \<and> \<not> sublist ''quota'' (py_lower s)
        \<and> \<not> sublist ''429'' s \<and> sublist ''404'' s"
    have "general_error_message s = msg_404"
      by (rule not_found_message
            [OF h [THEN conjunct1] h [THEN conjunct2, THEN conjunct1]
                h [THEN conjunct2, THEN conjunct2, THEN conjunct1]
                h [THEN conjunct2, THEN conjunct2, THEN conjunct2]])
    then show "general_error_message s =
             ''I'm experiencing a temporary service issue. Please try again in a few moments.''"
      by (simp only: msg_404_def)
  qed
  have c5: "\<not> sublist ''API key not valid'' s \<and> \<not> sublist ''quota'' (py_lower s)
        \<and> \<not> sublist ''429'' s \<and> \<not> sublist ''404'' s \<and> sublist ''timeout'' (py_lower s)
       \<longrightarrow> general_error_message s =
             ''The request timed out. Please try again with a shorter query.''"
  proof (rule impI)
    assume h: "\<not> sublist ''API key not valid'' s \<and> \<not> sublist ''quota'' (py_lower s)
        \<and> \<not> sublist ''429'' s \<and> \<not> sublist ''404'' s \<and> sublist ''timeout'' (py_lower s)"
    have "general_error_message s = msg_timeout"
      by (rule timeout_message
            [OF h [THEN conjunct1] h [THEN conjunct2, THEN conjunct1]
                h [THEN conjunct2, THEN conjunct2, THEN conjunct1]
                h [THEN conjunct2, THEN conjunct2, THEN conjunct2, THEN conjunct1]
                h [THEN conjunct2, THEN conjunct2, THEN conjunct2, THEN conjunct2]])
    then show "general_error_message s =
             ''The request timed out. Please try again with a shorter query.''"
      by (simp only: msg_timeout_def)
  qed
  have c6: "sublist ''API key not valid'' s \<or> sublist ''quota'' (py_lower s) \<or> sublist ''429'' s
        \<or> sublist ''404'' s \<or> sublist ''timeout'' (py_lower s)
       \<longrightarrow> \<not> sublist s (general_error_message s)"
    by (rule impI) (rule classified_message [THEN conjunct2])
  have c7: "\<not> (sublist ''API key not valid'' s \<or> sublist ''quota'' (py_lower s) \<or> sublist ''429'' s
           \<or> sublist ''404'' s \<or> sublist ''timeout'' (py_lower s))
       \<longrightarrow> general_error_message s
             = ''I encountered an error: '' @ take 100 s @ ''... Please try again.''"
    by (rule impI) (rule unclassified_message)
  from c1 c2 c3 c4 c5 c6 c7 show ?thesis by (intro conjI)
qed


text \<open>
  Witness for C8 (amended): one error text for each of the four classes, and one of no known
  class.
\<close>

theorem general_error_message_classified_witness:
  "generate_content (stub_services quota_twice) 0 ''hi'' = Inl (ServiceError ''429 quota exceeded'')
   \<and> generate_general_response (stub_services quota_twice) ''hi'' 0
       = (Inr (general_error_message ''429 quota exceeded''), 1)
   \<and> general_error_message ''API key not valid. Please pass a valid API key.''
       = ''I'm sorry, but there's an issue with the AI service configuration. Please check the API key.''
   \<and> general_error_message ''429 quota exceeded''
       = ''I'm having trouble processing your request right now. Please try again shortly.''
   \<and> general_error_message ''404 model not found''
       = ''I'm experiencing a temporary service issue. Please try again in a few moments.''
   \<and> general_error_message ''Request TIMEOUT''
       = ''The request timed out. Please try again with a shorter query.''
   \<and> general_error_message ''boom'' = ''I encountered an error: boom... Please try again.''"
proof -
  have g: "generate_content (stub_services quota_twice) 0 ''hi'' = Inl (ServiceError ''429 quota exceeded'')"
    by (simp add: stub_services_def)
  have r0: "generate_general_response (stub_services quota_twice) ''hi'' 0
       = (Inr (general_error_message (str (ServiceError ''429 quota exceeded''))), Suc 0)"
    by (rule general_error_message_classified
      [of "stub_services quota_twice" 0 "''hi''" "ServiceError ''429 quota exceeded''" "''429 quota exceeded''",
       THEN conjunct1, THEN mp, OF g])
  then have r0': "generate_general_response (stub_services quota_twice) ''hi'' 0
       = (Inr (general_error_message ''429 quota exceeded''), 1)"
    by simp
  have h1: "sublist ''API key not valid'' ''API key not valid. Please pass a valid API key.''"
    by code_simp
  have r1: "general_error_message ''API key not valid. Please pass a valid API key.''
       = ''I'm sorry, but there's an issue with the AI service configuration. Please check the API key.''"
    by (rule general_error_message_classified
      [of "stub_services quota_twice" 0 "''hi''" "ServiceError ''429 quota exceeded''" "''API key not valid. Please pass a valid API key.''",
       THEN conjunct2, THEN conjunct1, THEN mp, OF h1])
  have h2: "\<not> sublist ''API key not valid'' ''429 quota exceeded'' \<and> (sublist ''quota'' (py_lower ''429 quota exceeded'') \<or> sublist ''429'' ''429 quota exceeded'')"
    by code_simp
  have r2: "general_error_message ''429 quota exceeded''
       = ''I'm having trouble processing your request right now. Please try again shortly.''"
    by (rule general_error_message_classified
      [of "stub_services quota_twice" 0 "''hi''" "ServiceError ''429 quota exceeded''" "''429 quota exceeded''",
       THEN conjunct2, THEN conjunct2, THEN conjunct1, THEN mp, OF h2])
  have h3: "\<not> sublist ''API key not valid'' ''404 model not found'' \<and> \<not> sublist ''quota'' (py_lower ''404 model not found'') \<and> \<not> sublist ''429'' ''404 model not found'' \<and> sublist ''404'' ''404 model not found''"
    by code_simp
  have r3: "general_error_message ''404 model not found''
       = ''I'm experiencing a temporary service issue. Please try again in a few moments.''"
    by (rule general_error_message_classified
      [of "stub_services quota_twice" 0 "''hi''" "ServiceError ''429 quota exceeded''" "''404 model not found''",
       THEN conjunct2, THEN conjunct2, THEN conjunct2, THEN conjunct1, THEN mp, OF h3])
  have h4: "\<not> sublist ''API key not valid'' ''Request TIMEOUT'' \<and> \<not> sublist ''quota'' (py_lower ''Request TIMEOUT'') \<and> \<not> sublist ''429'' ''Request TIMEOUT'' \<and> \<not> sublist ''404'' ''Request TIMEOUT'' \<and> sublist ''timeout'' (py_lower ''Request TIMEOUT'')"
    by code_simp
  have r4: "general_error_message ''Request TIMEOUT''
       = ''The request timed out. Please try again with a shorter query.''"
    by (rule general_error_message_classified
      [of "stub_services quota_twice" 0 "''hi''" "ServiceError ''429 quota exceeded''" "''Request TIMEOUT''",
       THEN conjunct2, THEN conjunct2, THEN conjunct2, THEN conjunct2, THEN conjunct1, THEN mp, OF h4])
  have h5: "\<not> (sublist ''API key not valid'' ''boom'' \<or> sublist ''quota'' (py_lower ''boom'') \<or> sublist ''429'' ''boom'' \<or> sublist ''404'' ''boom'' \<or> sublist ''timeout'' (py_lower ''boom''))"
    by code_simp
  have "general_error_message ''boom'' = ''I encountered an error: '' @ take 100 ''boom'' @ ''... Please try again.''"
    by (rule general_error_message_classified
      [of "stub_services quota_twice" 0 "''hi''" "ServiceError ''429 quota exceeded''" "''boom''",
       THEN conjunct2, THEN conjunct2, THEN conjunct2, THEN conjunct2, THEN conjunct2, THEN conjunct2, THEN mp, OF h5])
  then have r5: "general_error_message ''boom'' = ''I encountered an error: boom... Please try again.''"
    by simp
  from g r0' r1 r2 r3 r4 r5 show ?thesis by (intro conjI)
qed

lemma search_found:
  assumes "st (collection_name user_id) = Some collection"
    and "generate_embeddings sv [query] = Inr (q # qs)"
    and "query_fault sv = None"
  shows "search_relevant_chunks sv st user_id query top_k = Inr (nearest sv collection q top_k)"
  using assms
  by (simp add: search_relevant_chunks_def get_user_collection_def get_collection_def
      collection_query_def)

lemma search_nothing:
  assumes "st (collection_name user_id) = None \<or> (\<exists>e. generate_embeddings sv [query] = Inl e)
           \<or> generate_embeddings sv [query] = Inr [] \<or> (\<exists>e. query_fault sv = Some e)"
  shows "search_relevant_chunks sv st user_id query top_k = Inr []"
  using assms
  by (auto simp: search_relevant_chunks_def get_user_collection_def get_collection_def
      collection_query_def split: option.splits sum.splits list.splits)

lemma remote_query_embedding:
  assumes "embedding_model sv = GeminiEmbedding" and "embed_content sv query = Inr q"
  shows "generate_embeddings sv [query] = Inr [q]"
  using assms by (simp add: generate_embeddings_def)

lemma length_nearest_min: "length (nearest sv collection q k) = min k (length collection)"
  by (simp add: nearest_def min.commute)

lemma sorted_nearest: "sorted (map distance (nearest sv collection q k))"
proof -
  let ?d = "\<lambda>e. vector_distance sv q (entry_embedding e)"
  have "map distance (nearest sv collection q k) = take k (map ?d (sort_key ?d collection))"
    by (simp add: nearest_def take_map comp_def)
  moreover have "sorted (map ?d (sort_key ?d collection))"
    by (rule sorted_sort_key)
  ultimately show ?thesis by (simp add: sorted_wrt_take)
qed

lemma nearest_stored:
  "h \<in> set (nearest sv collection q k) \<Longrightarrow>
     \<exists>e \<in> set collection.
       h = \<lparr>content = entry_document e, metadata = entry_metadata e,
            distance = vector_distance sv q (entry_embedding e)\<rparr>"
  by (auto simp: nearest_def dest!: in_set_takeD)

lemma loop_sources:
  "context_loop chunks [] [] 0 = (context_parts, sources) \<Longrightarrow>
     \<exists>k \<le> length chunks.
       sources = map (\<lambda>c. \<lparr>ref_source = source (metadata c),
                          ref_content_type = content_type (metadata c),
                          relevance_score = 1 - distance c\<rparr>) (take k chunks)"
proof -
  assume r: "context_loop chunks [] [] 0 = (context_parts, sources)"
  have "(0::int) \<le> max_context_length" by (simp add: max_context_length_def)
  from context_loop_prefix [OF this, of chunks "[]" "[]"]
  obtain k where "k \<le> length chunks"
    and "context_loop chunks [] [] 0
           = ([] @ map content (take k chunks), [] @ map source_of (take k chunks))"
    by blast
  with r show ?thesis by (auto simp: source_of_record)
qed

text \<open>
  Claim C9, amended. The default of \<open>top_k\<close> is 5. \<open>search_relevant_chunks\<close>
  never raises and returns at most \<open>top_k\<close> results. With the remote tier the query's
  embedding is what the embedding service answers for the query. When the user's collection
  exists, the query has an embedding and the store does not fail, the result is the
  \<open>top_k\<close> nearest chunks of that collection to that embedding: as many as there are, up
  to \<open>top_k\<close>, in order of distance, each carrying the content, the metadata and the
  distance of a stored chunk. In every other case the result is empty. The relevance score
  is not part of the result: \<open>generate_rag_response\<close>, which searches with the default
  5, returns with a grounded answer one source entry per included chunk, with
  \<open>relevance_score = 1 - distance\<close>.
\<close>

theorem search_relevant_chunks_at_most_top_k:
  "default_top_k = 5
   \<and> (\<exists>hits. search_relevant_chunks sv st user_id query top_k = Inr hits
         \<and> length hits \<le> top_k)
   \<and> (embedding_model sv = GeminiEmbedding \<and> embed_content sv query = Inr q
       \<longrightarrow> generate_embeddings sv [query] = Inr [q])
   \<and> (st (collection_name user_id) = Some collection
        \<and> generate_embeddings sv [query] = Inr (q # qs) \<and> query_fault sv = None
       \<longrightarrow> search_relevant_chunks sv st user_id query top_k
             = Inr (nearest sv collection q top_k)
           \<and> length (nearest sv collection q top_k) = min top_k (length collection)
           \<and> sorted (map distance (nearest sv collection q top_k))
           \<and> (\<forall>h \<in> set (nearest sv collection q top_k). \<exists>e \<in> set collection.
                 h = \<lparr>content = entry_document e, metadata = entry_metadata e,
                      distance = vector_distance sv q (entry_embedding e)\<rparr>))
   \<and> (st (collection_name user_id) = None \<or> (\<exists>e. generate_embeddings sv [query] = Inl e)
        \<or> generate_embeddings sv [query] = Inr [] \<or> (\<exists>e. query_fault sv = Some e)
       \<longrightarrow> search_relevant_chunks sv st user_id query top_k = Inr [])
   \<and> (st (collection_name user_id) = Some collection \<and> collection \<noteq> []
        \<and> search_relevant_chunks sv st user_id query 5 = Inr chunks
        \<and> context_loop chunks [] [] 0 = (context_parts, sources)
        \<and> context_parts \<noteq> []
        \<and> generate_content sv n (rag_prompt (py_join (newline @ newline) context_parts) query)
            = Inr response
       \<longrightarrow> generate_rag_response sv st query user_id n = (Inr (response, sources), Suc n)
           \<and> (\<exists>k \<le> length chunks.
                 sources = map (\<lambda>c. \<lparr>ref_source = source (metadata c),
                                    ref_content_type = content_type (metadata c),
                                    relevance_score = 1 - distance c\<rparr>) (take k chunks)))"
proof -
  have c1: "default_top_k = 5" by (rule default_top_k_def)
  have c2: "\<exists>hits. search_relevant_chunks sv st user_id query top_k = Inr hits
         \<and> length hits \<le> top_k"
  proof -
    obtain hits where h: "search_relevant_chunks sv st user_id query top_k = Inr hits"
      and sh: "hits = [] \<or> (\<exists>collection q. st (collection_name user_id) = Some collection
                          \<and> hits = nearest sv collection q top_k)"
      using search_relevant_chunks_shape [of sv st user_id query top_k] by blast
    from sh have "length hits \<le> top_k" using length_nearest by auto
    with h show ?thesis by blast
  qed
  have c3: "embedding_model sv = GeminiEmbedding \<and> embed_content sv query = Inr q
       \<longrightarrow> generate_embeddings sv [query] = Inr [q]"
    using remote_query_embedding by blast
  have c4: "st (collection_name user_id) = Some collection
        \<and> generate_embeddings sv [query] = Inr (q # qs) \<and> query_fault sv = None
       \<longrightarrow> search_relevant_chunks sv st user_id query top_k
             = Inr (nearest sv collection q top_k)
           \<and> length (nearest sv collection q top_k) = min top_k (length collection)
           \<and> sorted (map distance (nearest sv collection q top_k))
           \<and> (\<forall>h \<in> set (nearest sv collection q top_k). \<exists>e \<in> set collection.
                 h = \<lparr>content = entry_document e, metadata = entry_metadata e,
                      distance = vector_distance sv q (entry_embedding e)\<rparr>)"
    using search_found [of st user_id collection sv query q qs top_k]
      length_nearest_min [of sv collection q top_k] sorted_nearest [of sv collection q top_k]
      nearest_stored [of _ sv collection q top_k]
    by blast
  have c5: "st (collection_name user_id) = None \<or> (\<exists>e. generate_embeddings sv [query] = Inl e)
        \<or> generate_embeddings sv [query] = Inr [] \<or> (\<exists>e. query_fault sv = Some e)
       \<longrightarrow> search_relevant_chunks sv st user_id query top_k = Inr []"
    by (rule impI) (rule search_nothing)
  have c6: "st (collection_name user_id) = Some collection \<and> collection \<noteq> []
        \<and> search_relevant_chunks sv st user_id query 5 = Inr chunks
        \<and> context_loop chunks [] [] 0 = (context_parts, sources)
        \<and> context_parts \<noteq> []
        \<and> generate_content sv n (rag_prompt (py_join (newline @ newline) context_parts) query)
            = Inr response
       \<longrightarrow> generate_rag_response sv st query user_id n = (Inr (response, sources), Suc n)
           \<and> (\<exists>k \<le> length chunks.
                 sources = map (\<lambda>c. \<lparr>ref_source = source (metadata c),
                                    ref_content_type = content_type (metadata c),
                                    relevance_score = 1 - distance c\<rparr>) (take k chunks))"
  proof (intro impI conjI)
    assume h: "st (collection_name user_id) = Some collection \<and> collection \<noteq> []
        \<and> search_relevant_chunks sv st user_id query 5 = Inr chunks
        \<and> context_loop chunks [] [] 0 = (context_parts, sources)
        \<and> context_parts \<noteq> []
        \<and> generate_content sv n (rag_prompt (py_join (newline @ newline) context_parts) query)
            = Inr response"
    then have s: "search_relevant_chunks sv st user_id query default_top_k = Inr chunks"
      by (simp add: default_top_k_def)
    from h s show "generate_rag_response sv st query user_id n = (Inr (response, sources), Suc n)"
      using grounded_success [of st user_id collection sv query chunks context_parts sources n response]
      by blast
    from h show "\<exists>k \<le> length chunks.
                 sources = map (\<lambda>c. \<lparr>ref_source = source (metadata c),
                                    ref_content_type = content_type (metadata c),
                                    relevance_score = 1 - distance c\<rparr>) (take k chunks)"
      using loop_sources [of chunks context_parts sources] by blast
  qed
  from c1 c2 c3 c4 c5 c6 show ?thesis by (intro conjI)
qed


text \<open>
  Witness for C9 (amended): a collection of five chunks, all within the budget, and a store
  without a collection.
\<close>

theorem search_relevant_chunks_at_most_top_k_witness:
  "embedding_model (stub_services always_answer) = GeminiEmbedding
   \<and> embed_content (stub_services always_answer) ''q'' = Inr [0]
   \<and> generate_embeddings (stub_services always_answer) [''q''] = Inr [[0]]
   \<and> search_relevant_chunks (stub_services always_answer)
        (Map.empty(''user_u1'' \<mapsto>
         [stub_entry ''d'' ''0'' 0 ''zero'', stub_entry ''d'' ''1'' 1 ''one'',
          stub_entry ''d'' ''2'' 2 ''two'', stub_entry ''d'' ''3'' 3 ''three'',
          stub_entry ''d'' ''4'' 4 ''four'']))
        ''u1'' ''q'' default_top_k
       = Inr
         [stub_hit ''d'' ''0'' 0 ''zero'', stub_hit ''d'' ''1'' 1 ''one'',
          stub_hit ''d'' ''2'' 2 ''two'', stub_hit ''d'' ''3'' 3 ''three'',
          stub_hit ''d'' ''4'' 4 ''four'']
   \<and> search_relevant_chunks (stub_services always_answer) Map.empty ''u1'' ''q'' default_top_k
       = Inr []
   \<and> generate_rag_response (stub_services always_answer)
        (Map.empty(''user_u1'' \<mapsto>
         [stub_entry ''d'' ''0'' 0 ''zero'', stub_entry ''d'' ''1'' 1 ''one'',
          stub_entry ''d'' ''2'' 2 ''two'', stub_entry ''d'' ''3'' 3 ''three'',
          stub_entry ''d'' ''4'' 4 ''four'']))
        ''q'' ''u1'' 0
       = (Inr (''Hello'',
          [\<lparr>ref_source = ''notes.txt'', ref_content_type = ''text'', relevance_score = 1\<rparr>,
           \<lparr>ref_source = ''notes.txt'', ref_content_type = ''text'', relevance_score = 0\<rparr>,
           \<lparr>ref_source = ''notes.txt'', ref_content_type = ''text'', relevance_score = - 3\<rparr>,
           \<lparr>ref_source = ''notes.txt'', ref_content_type = ''text'', relevance_score = - 8\<rparr>,
           \<lparr>ref_source = ''notes.txt'', ref_content_type = ''text'', relevance_score = - 15\<rparr>]), 1)"
proof -
  let ?sv = "stub_services always_answer"
  let ?es = "[stub_entry ''d'' ''0'' 0 ''zero'', stub_entry ''d'' ''1'' 1 ''one'',
          stub_entry ''d'' ''2'' 2 ''two'', stub_entry ''d'' ''3'' 3 ''three'',
          stub_entry ''d'' ''4'' 4 ''four'']"
  let ?hs = "[stub_hit ''d'' ''0'' 0 ''zero'', stub_hit ''d'' ''1'' 1 ''one'',
          stub_hit ''d'' ''2'' 2 ''two'', stub_hit ''d'' ''3'' 3 ''three'',
          stub_hit ''d'' ''4'' 4 ''four'']"
  let ?st = "Map.empty(''user_u1'' \<mapsto> ?es)"
  let ?parts = "[''zero'', ''one'', ''two'', ''three'', ''four'']"
  let ?src = "[\<lparr>ref_source = ''notes.txt'', ref_content_type = ''text'', relevance_score = (1::real)\<rparr>,
           \<lparr>ref_source = ''notes.txt'', ref_content_type = ''text'', relevance_score = 0\<rparr>,
           \<lparr>ref_source = ''notes.txt'', ref_content_type = ''text'', relevance_score = - 3\<rparr>,
           \<lparr>ref_source = ''notes.txt'', ref_content_type = ''text'', relevance_score = - 8\<rparr>,
           \<lparr>ref_source = ''notes.txt'', ref_content_type = ''text'', relevance_score = - 15\<rparr>]"
  note inst = search_relevant_chunks_at_most_top_k
    [of ?sv ?st "''u1''" "''q''" default_top_k "[0]" ?es "[]" ?hs ?parts ?src 0 "''Hello''"]
  have e1: "embedding_model ?sv = GeminiEmbedding" and e2: "embed_content ?sv ''q'' = Inr [0]"
    and e3: "query_fault ?sv = None"
    by (simp_all add: stub_services_def)
  from e1 e2 have "embedding_model ?sv = GeminiEmbedding \<and> embed_content ?sv ''q'' = Inr [0]"
    by (intro conjI)
  with inst [THEN conjunct2, THEN conjunct2, THEN conjunct1]
  have e4: "generate_embeddings ?sv [''q''] = Inr [[0]]"
    by (rule mp)
  have s1: "?st (collection_name ''u1'') = Some ?es"
    by (simp add: collection_name_def)
  from s1 e4 e3
  have "?st (collection_name ''u1'') = Some ?es
        \<and> generate_embeddings ?sv [''q''] = Inr [[0]] \<and> query_fault ?sv = None"
    by (intro conjI)
  with inst [THEN conjunct2, THEN conjunct2, THEN conjunct2, THEN conjunct1]
  have "search_relevant_chunks ?sv ?st ''u1'' ''q'' default_top_k
             = Inr (nearest ?sv ?es [0] default_top_k)
           \<and> length (nearest ?sv ?es [0] default_top_k) = min default_top_k (length ?es)
           \<and> sorted (map distance (nearest ?sv ?es [0] default_top_k))
           \<and> (\<forall>h \<in> set (nearest ?sv ?es [0] default_top_k). \<exists>e \<in> set ?es.
                 h = \<lparr>content = entry_document e, metadata = entry_metadata e,
                      distance = vector_distance ?sv [0] (entry_embedding e)\<rparr>)"
    by (rule mp)
  then have s2: "search_relevant_chunks ?sv ?st ''u1'' ''q'' default_top_k
             = Inr (nearest ?sv ?es [0] default_top_k)"
    by (rule conjunct1)
  have nn: "nearest ?sv ?es [0] default_top_k = ?hs"
    by (simp add: nearest_def stub_services_def stub_hit_def stub_entry_def default_top_k_def)
  from s2 have s3: "search_relevant_chunks ?sv ?st ''u1'' ''q'' default_top_k = Inr ?hs"
    by (simp only: nn)
  have "(Map.empty :: store) (collection_name ''u1'') = None
        \<or> (\<exists>e. generate_embeddings ?sv [''q''] = Inl e)
        \<or> generate_embeddings ?sv [''q''] = Inr [] \<or> (\<exists>e. query_fault ?sv = Some e)"
    by simp
  with search_relevant_chunks_at_most_top_k
    [of ?sv Map.empty "''u1''" "''q''" default_top_k "[0]" ?es "[]" ?hs ?parts ?src 0 "''Hello''",
     THEN conjunct2, THEN conjunct2, THEN conjunct2, THEN conjunct2, THEN conjunct1]
  have s4: "search_relevant_chunks ?sv Map.empty ''u1'' ''q'' default_top_k = Inr []"
    by (rule mp)
  have g0: "?es \<noteq> []" by simp
  from s3 have g2: "search_relevant_chunks ?sv ?st ''u1'' ''q'' 5 = Inr ?hs"
    by (simp only: default_top_k_def)
  have g3: "context_loop ?hs [] [] 0 = (?parts, ?src)"
    by (simp add: stub_hit_def stub_entry_def source_of_def py_len_def max_context_length_def)
  have g4: "?parts \<noteq> []" by simp
  have g5: "generate_content ?sv 0 (rag_prompt (py_join (newline @ newline) ?parts) ''q'')
              = Inr ''Hello''"
    by (simp add: stub_services_def)
  from s1 g0 g2 g3 g4 g5
  have "?st (collection_name ''u1'') = Some ?es \<and> ?es \<noteq> []
        \<and> search_relevant_chunks ?sv ?st ''u1'' ''q'' 5 = Inr ?hs
        \<and> context_loop ?hs [] [] 0 = (?parts, ?src)
        \<and> ?parts \<noteq> []
        \<and> generate_content ?sv 0 (rag_prompt (py_join (newline @ newline) ?parts) ''q'')
            = Inr ''Hello''"
    by (intro conjI)
  with inst [THEN conjunct2, THEN conjunct2, THEN conjunct2, THEN conjunct2, THEN conjunct2]
  have "generate_rag_response ?sv ?st ''q'' ''u1'' 0 = (Inr (''Hello'', ?src), Suc 0)
           \<and> (\<exists>k \<le> length ?hs.
                 ?src = map (\<lambda>c. \<lparr>ref_source = source (metadata c),
                                    ref_content_type = content_type (metadata c),
                                    relevance_score = 1 - distance c\<rparr>) (take k ?hs))"
    by (rule mp)
  then have "generate_rag_response ?sv ?st ''q'' ''u1'' 0 = (Inr (''Hello'', ?src), Suc 0)"
    by (rule conjunct1)
  then have g6: "generate_rag_response ?sv ?st ''q'' ''u1'' 0 = (Inr (''Hello'', ?src), 1)"
    by simp
  from e1 e2 e4 s3 s4 g6 show ?thesis by (intro conjI)
qed

end
